theory Spec2Isabelle
  imports Complex_Main "HOL-Library.Sublist" "HOL-Library.Monad_Syntax"
begin

section \<open>Python values\<close>

text \<open>
  The research agent of \<^verbatim>\<open>backend/Intenet agent.py\<close> is embedded function by function.
  A Python \<^verbatim>\<open>str\<close> is a \<^typ>\<open>string\<close>, one \<^typ>\<open>char\<close> per character, so the model covers
  the characters up to U+00FF; a \<^verbatim>\<open>float\<close> is a rational number, so the IEEE special
  values are outside the model. Console output (\<^verbatim>\<open>print\<close>) is left out. Every
  \<^verbatim>\<open>raise\<close> of the source is a value \<open>Inl e\<close> of a sum type.
\<close>

datatype json =
    JNull
  | JBool bool
  | JNum rat
  | JStr string
  | JArr "json list"
  | JObj "(string \<times> json) list"

datatype error =
    APIError string
  | HTTPError string
  | IndexError
  | AttributeError
  | TypeError
  | JSONDecodeError
  | ValidationError

text \<open>A decoded JSON object is a Python dict: of two entries with one key the later wins.\<close>

definition dict_lookup :: "(string \<times> json) list \<Rightarrow> string \<Rightarrow> json option" where
  "dict_lookup kvs k = map_of (rev kvs) k"

definition dict_get :: "(string \<times> json) list \<Rightarrow> string \<Rightarrow> json \<Rightarrow> json" where
  "dict_get kvs k d = (case dict_lookup kvs k of None \<Rightarrow> d | Some v \<Rightarrow> v)"

subsection \<open>String methods\<close>

text \<open>\<^verbatim>\<open>str.isspace\<close> on the characters up to U+00FF.\<close>

definition py_isspace :: "char \<Rightarrow> bool" where
  "py_isspace c =
     (of_char c \<in> set ([9, 10, 11, 12, 13, 28, 29, 30, 31, 32, 133, 160] :: nat list))"

definition py_strip :: "string \<Rightarrow> string" where
  "py_strip s = rev (dropWhile py_isspace (rev (dropWhile py_isspace s)))"

definition py_startswith :: "string \<Rightarrow> string \<Rightarrow> bool" where
  "py_startswith s p = prefix p s"

text \<open>
  \<^verbatim>\<open>s.split(sep)\<close> for a non-empty separator: the pieces between the occurrences of
  \<open>sep\<close>, found from left to right without overlap. \<open>cur\<close> is the piece being read,
  reversed.
\<close>

function py_split_from :: "string \<Rightarrow> string \<Rightarrow> string \<Rightarrow> string list" where
  "py_split_from sep cur s =
     (if s = [] then [rev cur]
      else if sep \<noteq> [] \<and> prefix sep s
        then rev cur # py_split_from sep [] (drop (length sep) s)
      else py_split_from sep (hd s # cur) (tl s))"
  by pat_completeness auto
termination
  by (relation "measure (\<lambda>(sep, cur, s). length s)") (auto simp: prefix_def)

definition py_split :: "string \<Rightarrow> string \<Rightarrow> string list" where
  "py_split s sep = py_split_from sep [] s"

text \<open>\<^verbatim>\<open>xs[i]\<close> for \<open>i \<ge> 0\<close>: IndexError out of range.\<close>

definition py_index :: "'a list \<Rightarrow> nat \<Rightarrow> error + 'a" where
  "py_index xs i = (if i < length xs then Inr (xs ! i) else Inl IndexError)"

text \<open>\<^verbatim>\<open>s[:n]\<close>: a negative \<open>n\<close> counts from the end.\<close>

definition py_slice_to :: "string \<Rightarrow> int \<Rightarrow> string" where
  "py_slice_to s n =
     (if 0 \<le> n then take (nat n) s else take (nat (int (length s) + n)) s)"

fun py_join :: "string \<Rightarrow> string list \<Rightarrow> string" where
  "py_join sep [] = []"
| "py_join sep [x] = x"
| "py_join sep (x # y # ys) = x @ sep @ py_join sep (y # ys)"

section \<open>Configuration\<close>

text \<open>
  The module globals read from the process environment (lines 44 to 47) and the
  client built from them (line 89). \<^verbatim>\<open>os.getenv(name, default)\<close> gives the default when the
  variable is not set. The Groq constructor raises only when it is given no key at all.
\<close>

record config =
  GROQ_API_KEY :: string
  SERPER_API_KEY :: string

definition GROQ_MODEL :: string where
  "GROQ_MODEL = ''llama3-70b-8192''"

definition getenv :: "(string \<rightharpoonup> string) \<Rightarrow> string \<Rightarrow> string \<Rightarrow> string" where
  "getenv environ name dflt = (case environ name of None \<Rightarrow> dflt | Some v \<Rightarrow> v)"

datatype startup_error = ConfigurationError

definition Groq :: "string option \<Rightarrow> startup_error + string" where
  "Groq api_key = (case api_key of None \<Rightarrow> Inl ConfigurationError | Some k \<Rightarrow> Inr k)"

definition module_init :: "(string \<rightharpoonup> string) \<Rightarrow> startup_error + config" where
  "module_init environ =
     (let groq_api_key = getenv environ ''GROQ_API_KEY'' ''YOUR_GROQ_API_KEY_HERE'';
          serper_api_key = getenv environ ''SERPER_API_KEY'' ''''
      in case Groq (Some groq_api_key) of
           Inl e \<Rightarrow> Inl e
         | Inr client_key \<Rightarrow>
             Inr \<lparr>GROQ_API_KEY = client_key, SERPER_API_KEY = serper_api_key\<rparr>)"

section \<open>Structured output schemas\<close>

record SearchQuery =
  query :: string
  reason :: string

record AgentPlan =
  goal :: string
  search_queries :: "SearchQuery list"
  needs_url_fetch :: bool
  target_url :: "string option"

record ExtractedFact =
  fact :: string
  source :: string
  confidence :: rat

record AgentAnswer =
  query :: string
  summary :: string
  key_facts :: "ExtractedFact list"
  sources :: "string list"
  confidence :: rat
  follow_up_questions :: "string list"

section \<open>The outside world\<close>

text \<open>
  The three network services are oracles. Each gets the history of all calls made so far
  and the request, so an answer may depend on anything that happened before; every call
  is appended to the history.
\<close>

record chat_request =
  api_key :: string
  model :: string
  temperature :: rat
  max_tokens :: nat
  messages :: "(string \<times> string) list"

record search_request =
  x_api_key :: string
  q :: string
  num :: int

record world =
  llm_calls :: "chat_request list"
  search_calls :: "search_request list"
  fetch_calls :: "string list"

text \<open>
  A chat completion raises, or returns the contents of its choices (\<open>None\<close> for a
  message without content).
\<close>

datatype llm_outcome = LLMRaises string | LLMResponse "string option list"

text \<open>
  A POST raises, or returns a response whose body \<^verbatim>\<open>resp.json()\<close> decodes (\<open>None\<close>: the
  body is not JSON and \<^verbatim>\<open>resp.json()\<close> raises). A GET raises or returns the page text.
\<close>

datatype post_outcome = PostRaises string | PostResponse "json option"

datatype get_outcome = GetRaises string | GetResponse string

text \<open>One search hit, as \<^verbatim>\<open>search_web\<close> builds it: the three values may be any JSON.\<close>

record search_result =
  title :: json
  snippet :: json
  link :: json

text \<open>
  The environment: the oracles, and the library functions the module calls without
  defining them (the JSON decoder and the scalar coercions of pydantic, its schema
  printer, BeautifulSoup, \<^verbatim>\<open>str()\<close> and \<^verbatim>\<open>json.dumps\<close> of the values put into prompts).
\<close>

record env =
  completion :: "world \<Rightarrow> chat_request \<Rightarrow> llm_outcome"
  http_post :: "world \<Rightarrow> search_request \<Rightarrow> post_outcome"
  http_get :: "world \<Rightarrow> string \<Rightarrow> get_outcome"
  json_loads :: "string \<Rightarrow> json option"
  coerce_str :: "json \<Rightarrow> string option"
  coerce_float :: "json \<Rightarrow> rat option"
  coerce_bool :: "json \<Rightarrow> bool option"
  schema_dumps :: "string \<Rightarrow> string"
  bs4_installed :: bool
  soup_get_text :: "string \<Rightarrow> string + string"
  py_str :: "json \<Rightarrow> string"
  results_str :: "search_result list \<Rightarrow> string"
  facts_dumps :: "ExtractedFact list \<Rightarrow> string"
  list_repr :: "string list \<Rightarrow> string"

section \<open>Schema validation\<close>

text \<open>
  A model class is its name and its validator on a decoded JSON value. The validators
  follow the field declarations of lines 54 to 82: \<^verbatim>\<open>Field(...)\<close> is a required field, a
  field with a default may be absent, \<^verbatim>\<open>ge\<close> and \<^verbatim>\<open>le\<close> bound a number, keys that are not
  fields are ignored.
\<close>

record 'a model_class =
  class_name :: string
  model_validate :: "json \<Rightarrow> 'a option"

definition required :: "(json \<Rightarrow> 'a option) \<Rightarrow> (string \<times> json) list \<Rightarrow> string \<Rightarrow> 'a option" where
  "required f kvs k = (case dict_lookup kvs k of None \<Rightarrow> None | Some v \<Rightarrow> f v)"

definition with_default :: "'a \<Rightarrow> (json \<Rightarrow> 'a option) \<Rightarrow> (string \<times> json) list \<Rightarrow> string \<Rightarrow> 'a option" where
  "with_default d f kvs k = (case dict_lookup kvs k of None \<Rightarrow> Some d | Some v \<Rightarrow> f v)"

definition bounded :: "rat \<Rightarrow> rat \<Rightarrow> (json \<Rightarrow> rat option) \<Rightarrow> json \<Rightarrow> rat option" where
  "bounded ge le f v =
     (case f v of None \<Rightarrow> None
      | Some r \<Rightarrow> if ge \<le> r \<and> r \<le> le then Some r else None)"

fun all_some :: "'a option list \<Rightarrow> 'a list option" where
  "all_some [] = Some []"
| "all_some (None # xs) = None"
| "all_some (Some x # xs) = (case all_some xs of None \<Rightarrow> None | Some ys \<Rightarrow> Some (x # ys))"

definition list_of :: "(json \<Rightarrow> 'a option) \<Rightarrow> json \<Rightarrow> 'a list option" where
  "list_of f v = (case v of JArr xs \<Rightarrow> all_some (map f xs) | _ \<Rightarrow> None)"

definition optional :: "(json \<Rightarrow> 'a option) \<Rightarrow> json \<Rightarrow> 'a option option" where
  "optional f v = (case v of JNull \<Rightarrow> Some None | _ \<Rightarrow> map_option Some (f v))"

definition validate_SearchQuery :: "env \<Rightarrow> json \<Rightarrow> SearchQuery option" where
  "validate_SearchQuery E v =
     (case v of
        JObj kvs \<Rightarrow>
          do {
            qu \<leftarrow> required (coerce_str E) kvs ''query'';
            re \<leftarrow> required (coerce_str E) kvs ''reason'';
            Some \<lparr>SearchQuery.query = qu, reason = re\<rparr>
          }
      | _ \<Rightarrow> None)"

definition validate_AgentPlan :: "env \<Rightarrow> json \<Rightarrow> AgentPlan option" where
  "validate_AgentPlan E v =
     (case v of
        JObj kvs \<Rightarrow>
          do {
            g \<leftarrow> required (coerce_str E) kvs ''goal'';
            sqs \<leftarrow> required (list_of (validate_SearchQuery E)) kvs ''search_queries'';
            nf \<leftarrow> with_default False (coerce_bool E) kvs ''needs_url_fetch'';
            tu \<leftarrow> with_default None (optional (coerce_str E)) kvs ''target_url'';
            Some \<lparr>goal = g, search_queries = sqs, needs_url_fetch = nf, target_url = tu\<rparr>
          }
      | _ \<Rightarrow> None)"

definition validate_ExtractedFact :: "env \<Rightarrow> json \<Rightarrow> ExtractedFact option" where
  "validate_ExtractedFact E v =
     (case v of
        JObj kvs \<Rightarrow>
          do {
            f \<leftarrow> required (coerce_str E) kvs ''fact'';
            s \<leftarrow> required (coerce_str E) kvs ''source'';
            c \<leftarrow> required (bounded 0 1 (coerce_float E)) kvs ''confidence'';
            Some \<lparr>fact = f, source = s, ExtractedFact.confidence = c\<rparr>
          }
      | _ \<Rightarrow> None)"

text \<open>The class \<^verbatim>\<open>FactList\<close> local to \<^verbatim>\<open>step_extract\<close>: one required field \<^verbatim>\<open>facts\<close>.\<close>

definition validate_FactList :: "env \<Rightarrow> json \<Rightarrow> ExtractedFact list option" where
  "validate_FactList E v =
     (case v of
        JObj kvs \<Rightarrow> required (list_of (validate_ExtractedFact E)) kvs ''facts''
      | _ \<Rightarrow> None)"

definition validate_AgentAnswer :: "env \<Rightarrow> json \<Rightarrow> AgentAnswer option" where
  "validate_AgentAnswer E v =
     (case v of
        JObj kvs \<Rightarrow>
          do {
            qu \<leftarrow> required (coerce_str E) kvs ''query'';
            su \<leftarrow> required (coerce_str E) kvs ''summary'';
            kf \<leftarrow> required (list_of (validate_ExtractedFact E)) kvs ''key_facts'';
            so \<leftarrow> required (list_of (coerce_str E)) kvs ''sources'';
            c \<leftarrow> required (bounded 0 1 (coerce_float E)) kvs ''confidence'';
            fu \<leftarrow> with_default [] (list_of (coerce_str E)) kvs ''follow_up_questions'';
            Some \<lparr>AgentAnswer.query = qu, summary = su, key_facts = kf, sources = so,
                  AgentAnswer.confidence = c, follow_up_questions = fu\<rparr>
          }
      | _ \<Rightarrow> None)"

definition AgentPlan_class :: "env \<Rightarrow> AgentPlan model_class" where
  "AgentPlan_class E = \<lparr>class_name = ''AgentPlan'', model_validate = validate_AgentPlan E\<rparr>"

definition FactList_class :: "env \<Rightarrow> ExtractedFact list model_class" where
  "FactList_class E = \<lparr>class_name = ''FactList'', model_validate = validate_FactList E\<rparr>"

definition AgentAnswer_class :: "env \<Rightarrow> AgentAnswer model_class" where
  "AgentAnswer_class E = \<lparr>class_name = ''AgentAnswer'', model_validate = validate_AgentAnswer E\<rparr>"

definition ExtractedFact_class :: "env \<Rightarrow> ExtractedFact model_class" where
  "ExtractedFact_class E =
     \<lparr>class_name = ''ExtractedFact'', model_validate = validate_ExtractedFact E\<rparr>"

text \<open>\<^verbatim>\<open>cls.model_validate_json(raw)\<close>: decode the text, then validate the value.\<close>

definition model_validate_json :: "env \<Rightarrow> 'a model_class \<Rightarrow> string \<Rightarrow> error + 'a" where
  "model_validate_json E cls raw =
     (case json_loads E raw of
        None \<Rightarrow> Inl ValidationError
      | Some v \<Rightarrow>
          (case model_validate cls v of
             None \<Rightarrow> Inl ValidationError
           | Some a \<Rightarrow> Inr a))"

section \<open>The LLM helper\<close>

text \<open>
  The em dash of the directive (U+2014) is beyond the model's characters and is written
  as its three UTF-8 bytes.
\<close>

definition EM_DASH :: string where
  "EM_DASH = [CHR 0xE2, CHR 0x80, CHR 0x94]"

definition JSON_ONLY_DIRECTIVE :: string where
  "JSON_ONLY_DIRECTIVE =
     [CHR 0x0A, CHR 0x0A] @ ''You MUST respond with ONLY a valid JSON object '' @ EM_DASH
       @ '' no markdown, no explanation, no backticks.'' @ [CHR 0x0A]
       @ ''The JSON must exactly match this schema:'' @ [CHR 0x0A]"

text \<open>Lines 119 to 126: the text that reaches the validator.\<close>

definition strip_fences :: "string \<Rightarrow> error + string" where
  "strip_fences content =
     (let raw = py_strip content in
      if py_startswith raw ''```'' then
        (case py_index (py_split raw ''```'') 1 of
           Inl e \<Rightarrow> Inl e
         | Inr raw1 \<Rightarrow>
             Inr (py_strip (if py_startswith raw1 ''json'' then drop 4 raw1 else raw1)))
      else Inr (py_strip raw))"

text \<open>The request of lines 101 to 117.\<close>

definition structured_request ::
  "env \<Rightarrow> config \<Rightarrow> string \<Rightarrow> string \<Rightarrow> 'a model_class \<Rightarrow> rat \<Rightarrow> chat_request"
where
  "structured_request E cfg system_prompt user_prompt output_schema temp =
     (let schema_json = schema_dumps E (class_name output_schema);
          full_system = system_prompt @ JSON_ONLY_DIRECTIVE @ schema_json
      in \<lparr>api_key = GROQ_API_KEY cfg, model = GROQ_MODEL, temperature = temp,
           max_tokens = 2048,
           messages = [(''system'', full_system), (''user'', user_prompt)]\<rparr>)"

definition llm_structured ::
  "env \<Rightarrow> config \<Rightarrow> string \<Rightarrow> string \<Rightarrow> 'a model_class \<Rightarrow> rat \<Rightarrow> world \<Rightarrow> (error + 'a) \<times> world"
where
  "llm_structured E cfg system_prompt user_prompt output_schema temp w =
     (let req = structured_request E cfg system_prompt user_prompt output_schema temp;
          w' = w\<lparr>llm_calls := llm_calls w @ [req]\<rparr>
      in case completion E w req of
           LLMRaises msg \<Rightarrow> (Inl (APIError msg), w')
         | LLMResponse choices \<Rightarrow>
             (case py_index choices 0 of
                Inl e \<Rightarrow> (Inl e, w')
              | Inr None \<Rightarrow> (Inl AttributeError, w')
              | Inr (Some content) \<Rightarrow>
                  (case strip_fences content of
                     Inl e \<Rightarrow> (Inl e, w')
                   | Inr raw \<Rightarrow> (model_validate_json E output_schema raw, w'))))"

section \<open>Internet tools\<close>

definition mock_result :: "string \<Rightarrow> search_result" where
  "mock_result qu =
     \<lparr>title = JStr ''Mock Result'',
      snippet = JStr (''Mock search result for '' @ [CHR 0x27] @ qu @ [CHR 0x27]),
      link = JStr ''https://example.com''\<rparr>"

text \<open>
  \<^verbatim>\<open>for r in v\<close> on a decoded JSON value: a list gives its items, a string its characters,
  a dict its keys, anything else is not iterable.
\<close>

definition py_iter :: "json \<Rightarrow> error + json list" where
  "py_iter v =
     (case v of
        JArr xs \<Rightarrow> Inr xs
      | JStr s \<Rightarrow> Inr (map (\<lambda>c. JStr [c]) s)
      | JObj kvs \<Rightarrow> Inr (map JStr (rev (remdups (rev (map fst kvs)))))
      | _ \<Rightarrow> Inl TypeError)"

text \<open>
  The loop of lines 167 to 173: \<^verbatim>\<open>r.get\<close> exists on a dict only, so any other item raises
  and the results gathered so far are lost.
\<close>

fun collect_results :: "json list \<Rightarrow> search_result list \<Rightarrow> error + search_result list" where
  "collect_results [] results = Inr results"
| "collect_results (r # rs) results =
     (case r of
        JObj kvs \<Rightarrow>
          collect_results rs
            (results @ [\<lparr>title = dict_get kvs ''title'' (JStr []),
                         snippet = dict_get kvs ''snippet'' (JStr []),
                         link = dict_get kvs ''link'' (JStr [])\<rparr>])
      | _ \<Rightarrow> Inl AttributeError)"

text \<open>The body of the \<^verbatim>\<open>try\<close> of \<^verbatim>\<open>search_web\<close> (lines 160 to 174).\<close>

definition search_web_try :: "env \<Rightarrow> world \<Rightarrow> search_request \<Rightarrow> error + search_result list" where
  "search_web_try E w req =
     (case http_post E w req of
        PostRaises msg \<Rightarrow> Inl (HTTPError msg)
      | PostResponse None \<Rightarrow> Inl JSONDecodeError
      | PostResponse (Some data) \<Rightarrow>
          (case data of
             JObj kvs \<Rightarrow>
               (case py_iter (dict_get kvs ''organic'' (JArr [])) of
                  Inl e \<Rightarrow> Inl e
                | Inr items \<Rightarrow> collect_results items [])
           | _ \<Rightarrow> Inl AttributeError))"

definition search_web :: "env \<Rightarrow> config \<Rightarrow> string \<Rightarrow> int \<Rightarrow> world \<Rightarrow> search_result list \<times> world" where
  "search_web E cfg qu num_results w =
     (if SERPER_API_KEY cfg = [] then ([mock_result qu], w)
      else
        (let req = \<lparr>x_api_key = SERPER_API_KEY cfg, q = qu, num = num_results\<rparr>;
             w' = w\<lparr>search_calls := search_calls w @ [req]\<rparr>
         in case search_web_try E w req of
              Inl e \<Rightarrow> ([], w')
            | Inr results \<Rightarrow> (results, w')))"

text \<open>
  \<^verbatim>\<open>re.sub(r"<[^>]+>", " ", s)\<close>: a \<open><\<close>, then at least one character other than \<open>>\<close>,
  then \<open>>\<close>, becomes one space; matches are found from left to right.
\<close>

function re_sub_tags :: "string \<Rightarrow> string" where
  "re_sub_tags s =
     (case s of
        [] \<Rightarrow> []
      | c # rest \<Rightarrow>
          (let inner = takeWhile (\<lambda>x. x \<noteq> CHR ''>'') rest;
               after = dropWhile (\<lambda>x. x \<noteq> CHR ''>'') rest
           in if c = CHR ''<'' \<and> inner \<noteq> [] \<and> after \<noteq> []
              then CHR '' '' # re_sub_tags (tl after)
              else c # re_sub_tags rest))"
  by pat_completeness auto
termination
proof (relation "measure length")
  fix s :: string and c rest inner after
  assume "s = c # rest" and "after = dropWhile (\<lambda>x. x \<noteq> CHR ''>'') rest"
  moreover have "length (dropWhile (\<lambda>x. x \<noteq> CHR ''>'') rest) \<le> length rest"
    by (rule length_dropWhile_le)
  ultimately have "length (tl after) \<le> length rest"
    by simp
  with \<open>s = c # rest\<close> show "(tl after, s) \<in> measure length" by simp
qed auto

text \<open>
  The body of the \<^verbatim>\<open>try\<close> of \<^verbatim>\<open>fetch_url\<close> (lines 185 to 198); \<open>Inl\<close> carries the text of
  the exception.
\<close>

definition fetch_url_try :: "env \<Rightarrow> world \<Rightarrow> string \<Rightarrow> int \<Rightarrow> string + string" where
  "fetch_url_try E w url max_chars =
     (case http_get E w url of
        GetRaises msg \<Rightarrow> Inl msg
      | GetResponse body \<Rightarrow>
          (if bs4_installed E then
             (case soup_get_text E body of
                Inl msg \<Rightarrow> Inl msg
              | Inr text \<Rightarrow> Inr (py_slice_to text max_chars))
           else Inr (py_slice_to (re_sub_tags body) max_chars)))"

definition fetch_url :: "env \<Rightarrow> string \<Rightarrow> int \<Rightarrow> world \<Rightarrow> string \<times> world" where
  "fetch_url E url max_chars w =
     (let w' = w\<lparr>fetch_calls := fetch_calls w @ [url]\<rparr>
      in case fetch_url_try E w url max_chars of
           Inl msg \<Rightarrow> (''[ERROR fetching '' @ url @ '': '' @ msg @ '']'', w')
         | Inr text \<Rightarrow> (text, w'))"

section \<open>Chain steps\<close>

definition NL :: string where
  "NL = [CHR 0x0A]"

definition PLAN_SYSTEM :: string where
  "PLAN_SYSTEM =
     ''You are a research planning agent. ''
       @ ''Given a user query, decide what web searches to run to answer it thoroughly.''"

definition EXTRACT_SYSTEM :: string where
  "EXTRACT_SYSTEM =
     ''You are a fact extraction agent. ''
       @ ''Extract the most relevant, verifiable facts from the provided search results. ''
       @ ''Always include the source URL for each fact.''"

definition SYNTHESIZE_SYSTEM :: string where
  "SYNTHESIZE_SYSTEM =
     ''You are a research synthesis agent. ''
       @ ''Given extracted facts, produce a clear, accurate, well-sourced answer. ''
       @ ''Include follow-up questions the user might want to explore.''"

text \<open>The default \<^verbatim>\<open>temperature = 0.2\<close> of \<^verbatim>\<open>llm_structured\<close>, which every step uses.\<close>

definition DEFAULT_TEMPERATURE :: rat where
  "DEFAULT_TEMPERATURE = 2 / 10"

definition step_plan :: "env \<Rightarrow> config \<Rightarrow> string \<Rightarrow> world \<Rightarrow> (error + AgentPlan) \<times> world" where
  "step_plan E cfg qu w =
     llm_structured E cfg PLAN_SYSTEM (''User query: '' @ qu) (AgentPlan_class E)
       DEFAULT_TEMPERATURE w"

text \<open>
  \<^verbatim>\<open>raw_results\<close> is a dict from strings to search results or to the fetched page. A dict
  keeps its keys in the order of their first insertion, and storing under a key that is
  present replaces the value in place.
\<close>

datatype raw_value = SearchResults "search_result list" | PageText string

definition dict_set :: "('k \<times> 'v) list \<Rightarrow> 'k \<Rightarrow> 'v \<Rightarrow> ('k \<times> 'v) list" where
  "dict_set d k v =
     (if k \<in> set (map fst d) then map (\<lambda>(k', v'). if k' = k then (k', v) else (k', v')) d
      else d @ [(k, v)])"

text \<open>The loop of lines 237 to 240, run from a dict \<open>raw\<close>.\<close>

fun run_searches ::
  "env \<Rightarrow> config \<Rightarrow> SearchQuery list \<Rightarrow> (string \<times> raw_value) list \<Rightarrow> world
     \<Rightarrow> (string \<times> raw_value) list \<times> world"
where
  "run_searches E cfg [] raw w = (raw, w)"
| "run_searches E cfg (sq # sqs) raw w =
     (case search_web E cfg (SearchQuery.query sq) 5 w of
        (results, w') \<Rightarrow>
          run_searches E cfg sqs (dict_set raw (SearchQuery.query sq) (SearchResults results)) w')"

text \<open>
  \<^verbatim>\<open>plan.needs_url_fetch and plan.target_url\<close> is true when the flag is set and the URL is
  neither \<^verbatim>\<open>None\<close> nor empty; \<open>fetch_target\<close> is the URL to fetch in that case.
\<close>

definition fetch_target :: "AgentPlan \<Rightarrow> string option" where
  "fetch_target plan =
     (if needs_url_fetch plan then
        (case target_url plan of
           None \<Rightarrow> None
         | Some url \<Rightarrow> if url = [] then None else Some url)
      else None)"

definition step_execute ::
  "env \<Rightarrow> config \<Rightarrow> AgentPlan \<Rightarrow> world \<Rightarrow> (string \<times> raw_value) list \<times> world"
where
  "step_execute E cfg plan w =
     (case run_searches E cfg (search_queries plan) [] w of
        (raw, w1) \<Rightarrow>
          (case fetch_target plan of
             None \<Rightarrow> (raw, w1)
           | Some url \<Rightarrow>
               (case fetch_url E url 4000 w1 of
                  (text, w2) \<Rightarrow> (dict_set raw ''__url_fetch__'' (PageText text), w2))))"

text \<open>
  The context block of \<^verbatim>\<open>step_extract\<close> (lines 257 to 267). \<^verbatim>\<open>all_sources\<close> is gathered
  there and never read, so it is left out. Under a key other than \<^verbatim>\<open>__url_fetch__\<close> the
  value is iterated and each item indexed by a string, which raises on the characters of
  a page text.
\<close>

definition result_line :: "env \<Rightarrow> search_result \<Rightarrow> string" where
  "result_line E r =
     ''Source: '' @ py_str E (link r) @ NL @ ''Title: '' @ py_str E (title r) @ NL
       @ py_str E (snippet r) @ NL"

definition value_str :: "env \<Rightarrow> raw_value \<Rightarrow> string" where
  "value_str E v = (case v of PageText t \<Rightarrow> t | SearchResults rs \<Rightarrow> results_str E rs)"

fun context_lines :: "env \<Rightarrow> (string \<times> raw_value) list \<Rightarrow> string list \<Rightarrow> error + string list" where
  "context_lines E [] ls = Inr ls"
| "context_lines E ((search_q, results) # rest) ls =
     (if search_q = ''__url_fetch__''
      then context_lines E rest (ls @ [''[WEBPAGE CONTENT]'' @ NL @ value_str E results @ NL])
      else
        (case results of
           SearchResults rs \<Rightarrow> context_lines E rest (ls @ map (result_line E) rs)
         | PageText t \<Rightarrow> if t = [] then context_lines E rest ls else Inl TypeError))"

definition step_extract ::
  "env \<Rightarrow> config \<Rightarrow> string \<Rightarrow> (string \<times> raw_value) list \<Rightarrow> world
     \<Rightarrow> (error + ExtractedFact list) \<times> world"
where
  "step_extract E cfg qu raw_results w =
     (case context_lines E raw_results [] of
        Inl e \<Rightarrow> (Inl e, w)
      | Inr ls \<Rightarrow>
          llm_structured E cfg EXTRACT_SYSTEM
            (''Original question: '' @ qu @ NL @ NL @ ''Search results:'' @ NL
               @ py_join (NL @ ''---'' @ NL) ls)
            (FactList_class E) DEFAULT_TEMPERATURE w)"

text \<open>
  \<^verbatim>\<open>list({f.source for f in facts})\<close>: every source once. The order in which a Python set
  is listed is not fixed by the language; the model lists by last occurrence.
\<close>

definition known_sources :: "ExtractedFact list \<Rightarrow> string list" where
  "known_sources facts = remdups (map source facts)"

definition synthesize_prompt :: "env \<Rightarrow> string \<Rightarrow> ExtractedFact list \<Rightarrow> string" where
  "synthesize_prompt E qu facts =
     ''Original question: '' @ qu @ NL @ NL
       @ ''Extracted facts:'' @ NL @ facts_dumps E facts @ NL @ NL
       @ ''Known sources: '' @ list_repr E (known_sources facts)"

definition step_synthesize ::
  "env \<Rightarrow> config \<Rightarrow> string \<Rightarrow> ExtractedFact list \<Rightarrow> (string \<times> raw_value) list \<Rightarrow> world
     \<Rightarrow> (error + AgentAnswer) \<times> world"
where
  "step_synthesize E cfg qu facts raw_results w =
     llm_structured E cfg SYNTHESIZE_SYSTEM (synthesize_prompt E qu facts)
       (AgentAnswer_class E) DEFAULT_TEMPERATURE w"

section \<open>The agent\<close>

definition run_agent :: "env \<Rightarrow> config \<Rightarrow> string \<Rightarrow> world \<Rightarrow> (error + AgentAnswer) \<times> world" where
  "run_agent E cfg qu w =
     (case step_plan E cfg qu w of
        (Inl e, w1) \<Rightarrow> (Inl e, w1)
      | (Inr plan, w1) \<Rightarrow>
          (case step_execute E cfg plan w1 of
             (raw_results, w2) \<Rightarrow>
               (case step_extract E cfg qu raw_results w2 of
                  (Inl e, w3) \<Rightarrow> (Inl e, w3)
                | (Inr facts, w3) \<Rightarrow> step_synthesize E cfg qu facts raw_results w3)))"

section \<open>A scripted environment\<close>

text \<open>
  A test double on which the functions are run at concrete inputs: the \<open>n\<close>-th call to a
  service gets the \<open>n\<close>-th outcome of its script and a call beyond the script raises; the
  JSON decoder is a table from texts to their values (a text outside the table is
  rejected); a scalar is accepted at its own JSON type only; BeautifulSoup is not
  installed; the printers keep strings and print nothing for the rest.
\<close>

definition script_at :: "'a \<Rightarrow> 'a list \<Rightarrow> nat \<Rightarrow> 'a" where
  "script_at d xs n = (if n < length xs then xs ! n else d)"

definition scripted ::
  "llm_outcome list \<Rightarrow> post_outcome list \<Rightarrow> get_outcome list \<Rightarrow> (string \<times> json) list \<Rightarrow> env"
where
  "scripted llm_script post_script get_script decode_table =
     \<lparr>completion = (\<lambda>w req. script_at (LLMRaises ''no more responses'') llm_script
                       (length (llm_calls w))),
      http_post = (\<lambda>w req. script_at (PostRaises ''no more responses'') post_script
                      (length (search_calls w))),
      http_get = (\<lambda>w url. script_at (GetRaises ''no more responses'') get_script
                     (length (fetch_calls w))),
      json_loads = map_of decode_table,
      coerce_str = (\<lambda>v. case v of JStr s \<Rightarrow> Some s | _ \<Rightarrow> None),
      coerce_float = (\<lambda>v. case v of JNum r \<Rightarrow> Some r | _ \<Rightarrow> None),
      coerce_bool = (\<lambda>v. case v of JBool b \<Rightarrow> Some b | _ \<Rightarrow> None),
      schema_dumps = (\<lambda>name. name),
      bs4_installed = False,
      soup_get_text = Inr,
      py_str = (\<lambda>v. case v of JStr s \<Rightarrow> s | _ \<Rightarrow> []),
      results_str = (\<lambda>rs. []),
      facts_dumps = (\<lambda>fs. []),
      list_repr = concat\<rparr>"

definition fresh_world :: world where
  "fresh_world = \<lparr>llm_calls = [], search_calls = [], fetch_calls = []\<rparr>"

section \<open>Predicates of the properties\<close>

text \<open>
  The constraints that the schemas declare, the shape of a dict that \<^verbatim>\<open>step_extract\<close> can
  read, and the outcomes of a POST from which \<^verbatim>\<open>search_web\<close> gets no result page: the call
  raised, the body is not JSON, or the body is not an object whose \<^verbatim>\<open>organic\<close> entry (when
  present) is a list of objects.
\<close>

definition in_unit_interval :: "rat \<Rightarrow> bool" where
  "in_unit_interval r = (0 \<le> r \<and> r \<le> 1)"

definition valid_ExtractedFact :: "ExtractedFact \<Rightarrow> bool" where
  "valid_ExtractedFact f = in_unit_interval (ExtractedFact.confidence f)"

definition valid_AgentAnswer :: "AgentAnswer \<Rightarrow> bool" where
  "valid_AgentAnswer a =
     (in_unit_interval (AgentAnswer.confidence a) \<and> list_all valid_ExtractedFact (key_facts a))"


definition is_object :: "json \<Rightarrow> bool" where
  "is_object v = (case v of JObj kvs \<Rightarrow> True | _ \<Rightarrow> False)"

definition organic_well_formed :: "json \<Rightarrow> bool" where
  "organic_well_formed data =
     (case data of
        JObj kvs \<Rightarrow>
          (case dict_get kvs ''organic'' (JArr []) of
             JArr items \<Rightarrow> list_all is_object items
           | _ \<Rightarrow> False)
      | _ \<Rightarrow> False)"

definition transport_failed :: "post_outcome \<Rightarrow> bool" where
  "transport_failed out =
     (case out of
        PostRaises msg \<Rightarrow> True
      | PostResponse None \<Rightarrow> True
      | PostResponse (Some data) \<Rightarrow> \<not> organic_well_formed data)"

section \<open>Concrete inputs\<close>

text \<open>
  Configurations, response texts with their decoded values, plans and scripted
  environments on which the functions are run.
\<close>

definition demo_cfg :: config where
  "demo_cfg = \<lparr>GROQ_API_KEY = ''gsk_test'', SERPER_API_KEY = ''serper_test''\<rparr>"

definition mock_cfg :: config where
  "mock_cfg = \<lparr>GROQ_API_KEY = ''gsk_test'', SERPER_API_KEY = []\<rparr>"

definition placeholder_cfg :: config where
  "placeholder_cfg = \<lparr>GROQ_API_KEY = ''YOUR_GROQ_API_KEY_HERE'', SERPER_API_KEY = []\<rparr>"

definition no_environ :: "string \<rightharpoonup> string" where
  "no_environ = Map.empty"

definition plan_text :: string where
  \<open>plan_text = ''{"goal": "g", "search_queries": []}''\<close>

definition plan_json :: json where
  "plan_json = JObj [(''goal'', JStr ''g''), (''search_queries'', JArr [])]"

definition empty_plan :: AgentPlan where
  "empty_plan = \<lparr>goal = ''g'', search_queries = [], needs_url_fetch = False, target_url = None\<rparr>"

definition retry_env :: env where
  "retry_env =
     scripted [LLMResponse [Some ''not json''], LLMResponse [Some plan_text]] [] []
       [(plan_text, plan_json)]"

definition ticks_text :: string where
  \<open>ticks_text = ''{"goal": "```", "search_queries": []}''\<close>

definition ticks_json :: json where
  "ticks_json = JObj [(''goal'', JStr ''```''), (''search_queries'', JArr [])]"

definition ticks_plan :: AgentPlan where
  "ticks_plan =
     \<lparr>goal = ''```'', search_queries = [], needs_url_fetch = False, target_url = None\<rparr>"

definition fenced :: "string \<Rightarrow> string" where
  "fenced j = ''```json'' @ NL @ j @ NL @ ''```''"

definition answering :: "string \<Rightarrow> env" where
  "answering content = scripted [LLMResponse [Some content]] [] [] [(ticks_text, ticks_json)]"

definition dup_answer_text :: string where
  \<open>dup_answer_text =
     ''{"query": "q", "summary": "s", "key_facts": [], "sources": ["https://x.test", "https://x.test"], "confidence": 1}''\<close>

definition dup_answer_json :: json where
  "dup_answer_json =
     JObj [(''query'', JStr ''q''), (''summary'', JStr ''s''), (''key_facts'', JArr []),
           (''sources'', JArr [JStr ''https://x.test'', JStr ''https://x.test'']),
           (''confidence'', JNum 1)]"

definition dup_answer :: AgentAnswer where
  "dup_answer =
     \<lparr>AgentAnswer.query = ''q'', summary = ''s'', key_facts = [],
      sources = [''https://x.test'', ''https://x.test''], AgentAnswer.confidence = 1,
      follow_up_questions = []\<rparr>"

definition dup_env :: env where
  "dup_env = scripted [LLMResponse [Some dup_answer_text]] [] [] [(dup_answer_text, dup_answer_json)]"

definition two_facts :: "ExtractedFact list" where
  "two_facts =
     [\<lparr>fact = ''a'', source = ''https://x.test'', ExtractedFact.confidence = 1\<rparr>,
      \<lparr>fact = ''b'', source = ''https://x.test'', ExtractedFact.confidence = 1 / 2\<rparr>]"

definition unauthorized_env :: env where
  "unauthorized_env = scripted [LLMRaises ''401 invalid api key''] [] [] []"

definition down_env :: env where
  "down_env = scripted [] [] [GetRaises ''boom''] []"

definition page_env :: env where
  "page_env = scripted [] [] [GetResponse ''<p>Hello</p>''] []"

definition offline_env :: env where
  "offline_env = scripted [] [] [] []"













definition fact_text :: string where
  \<open>fact_text = ''{"fact": "f", "source": "s", "confidence": 0.5}''\<close>

definition high_fact_text :: string where
  \<open>high_fact_text = ''{"fact": "f", "source": "s", "confidence": 1.5}''\<close>

definition fact_env :: env where
  "fact_env =
     scripted [] [] []
       [(fact_text,
           JObj [(''fact'', JStr ''f''), (''source'', JStr ''s''), (''confidence'', JNum (1 / 2))]),
        (high_fact_text,
           JObj [(''fact'', JStr ''f''), (''source'', JStr ''s''), (''confidence'', JNum (3 / 2))])]"

definition aba_plan :: AgentPlan where
  "aba_plan =
     \<lparr>goal = ''g'',
      search_queries =
        [\<lparr>SearchQuery.query = ''a'', reason = ''first''\<rparr>,
         \<lparr>SearchQuery.query = ''b'', reason = ''second''\<rparr>,
         \<lparr>SearchQuery.query = ''a'', reason = ''third''\<rparr>],
      needs_url_fetch = False, target_url = None\<rparr>"

definition collide_plan :: AgentPlan where
  "collide_plan =
     \<lparr>goal = ''g'', search_queries = [\<lparr>SearchQuery.query = ''__url_fetch__'', reason = ''r''\<rparr>],
      needs_url_fetch = False, target_url = None\<rparr>"

definition collide_fetch_plan :: AgentPlan where
  "collide_fetch_plan =
     \<lparr>goal = ''g'', search_queries = [\<lparr>SearchQuery.query = ''__url_fetch__'', reason = ''r''\<rparr>],
      needs_url_fetch = True, target_url = Some ''http://a.test''\<rparr>"

definition serper_hit :: "string \<Rightarrow> post_outcome" where
  "serper_hit t = PostResponse (Some (JObj [(''organic'', JArr [JObj [(''title'', JStr t)]])]))"

definition hit :: "string \<Rightarrow> search_result" where
  "hit t = \<lparr>title = JStr t, snippet = JStr [], link = JStr []\<rparr>"

definition three_hits_env :: env where
  "three_hits_env = scripted [] [serper_hit ''first'', serper_hit ''second'', serper_hit ''third''] [] []"

definition soup_env :: env where
  "soup_env = page_env\<lparr>bs4_installed := True, soup_get_text := (\<lambda>body. Inr ''Hello'')\<rparr>"

definition broken_soup_env :: env where
  "broken_soup_env =
     page_env\<lparr>bs4_installed := True, soup_get_text := (\<lambda>body. Inl ''bad markup'')\<rparr>"

section \<open>Properties\<close>

subsection \<open>Dicts\<close>

lemma replace_keys: "map fst (map (\<lambda>(k', v'). if k' = k then (k', v) else (k', v')) d) = map fst d"
  by (induction d) auto

lemma dict_set_keys:
  "map fst (dict_set d k v) = (if k \<in> fst ` set d then map fst d else map fst d @ [k])"
  unfolding dict_set_def using replace_keys[of k v d] by simp

lemma dict_set_keys_set: "fst ` set (dict_set d k v) = insert k (fst ` set d)"
proof -
  have "set (map fst (dict_set d k v)) = insert k (set (map fst d))"
    unfolding dict_set_keys by auto
  then show ?thesis by simp
qed

lemma dict_set_distinct: "distinct (map fst d) \<Longrightarrow> distinct (map fst (dict_set d k v))"
  unfolding dict_set_keys by simp

lemma map_of_replace:
  "map_of (map (\<lambda>(k', v'). if k' = k then (k', v) else (k', v')) d) k'
     = (if k' = k \<and> k \<in> fst ` set d then Some v else map_of d k')"
proof (induction d)
  case Nil
  show ?case by simp
next
  case (Cons p d)
  obtain a b where p: "p = (a, b)" by (cases p)
  with Cons.IH show ?case by (cases "a = k") (auto split: if_splits)
qed

lemma map_of_dict_set: "map_of (dict_set d k v) k' = (if k' = k then Some v else map_of d k')"
proof (cases "k \<in> fst ` set d")
  case True
  then show ?thesis by (simp add: dict_set_def map_of_replace)
next
  case False
  then have "map_of d k = None" by (simp add: map_of_eq_None_iff)
  with False show ?thesis by (simp add: dict_set_def map_add_def split: option.split)
qed

lemma dict_set_values:
  "(k', v') \<in> set (dict_set d k v) \<Longrightarrow> (k', v') \<in> set d \<or> (k' = k \<and> v' = v)"
  by (auto simp: dict_set_def split: if_splits)

subsection \<open>The tools touch only their own history\<close>

lemma search_web_llm_calls: "llm_calls (snd (search_web E cfg qu n w)) = llm_calls w"
  by (simp add: search_web_def Let_def split: sum.split)

lemma fetch_url_llm_calls: "llm_calls (snd (fetch_url E url n w)) = llm_calls w"
  by (simp add: fetch_url_def Let_def split: sum.split)

lemma run_searches_llm_calls: "llm_calls (snd (run_searches E cfg sqs raw w)) = llm_calls w"
proof (induction sqs arbitrary: raw w)
  case Nil
  show ?case by simp
next
  case (Cons sq sqs)
  obtain results w' where s: "search_web E cfg (SearchQuery.query sq) 5 w = (results, w')"
    by (cases "search_web E cfg (SearchQuery.query sq) 5 w")
  then have "llm_calls w' = llm_calls w"
    using search_web_llm_calls[of E cfg "SearchQuery.query sq" 5 w] by simp
  with s Cons.IH show ?case by simp
qed

lemma step_execute_llm_calls: "llm_calls (snd (step_execute E cfg plan w)) = llm_calls w"
proof -
  obtain raw w1 where r: "run_searches E cfg (search_queries plan) [] w = (raw, w1)"
    by (cases "run_searches E cfg (search_queries plan) [] w")
  then have w1: "llm_calls w1 = llm_calls w"
    using run_searches_llm_calls[of E cfg "search_queries plan" "[]" w] by simp
  show ?thesis
  proof (cases "fetch_target plan")
    case None
    with r w1 show ?thesis by (simp add: step_execute_def)
  next
    case (Some url)
    obtain page w2 where f: "fetch_url E url 4000 w1 = (page, w2)"
      by (cases "fetch_url E url 4000 w1")
    then have "llm_calls w2 = llm_calls w1"
      using fetch_url_llm_calls[of E url 4000 w1] by simp
    with r w1 Some f show ?thesis by (simp add: step_execute_def)
  qed
qed

subsection \<open>The search loop\<close>

lemma run_searches_append:
  "run_searches E cfg (xs @ ys) raw w =
     (case run_searches E cfg xs raw w of (raw', w') \<Rightarrow> run_searches E cfg ys raw' w')"
  by (induction xs arbitrary: raw w) (auto split: prod.split)

lemma run_searches_keys:
  "fst ` set (fst (run_searches E cfg sqs raw w))
     = fst ` set raw \<union> SearchQuery.query ` set sqs"
  by (induction sqs arbitrary: raw w) (auto simp: dict_set_keys_set split: prod.split)

lemma run_searches_distinct:
  "distinct (map fst raw) \<Longrightarrow> distinct (map fst (fst (run_searches E cfg sqs raw w)))"
  by (induction sqs arbitrary: raw w) (auto simp: dict_set_distinct split: prod.split)

lemma run_searches_other_key:
  "k \<notin> SearchQuery.query ` set sqs
     \<Longrightarrow> map_of (fst (run_searches E cfg sqs raw w)) k = map_of raw k"
  by (induction sqs arbitrary: raw w) (auto simp: map_of_dict_set split: prod.split)

lemma run_searches_last_wins:
  assumes "SearchQuery.query sq \<notin> SearchQuery.query ` set post"
  shows "map_of (fst (run_searches E cfg (pre @ sq # post) raw w)) (SearchQuery.query sq)
           = Some (SearchResults (fst (search_web E cfg (SearchQuery.query sq) 5
                (snd (run_searches E cfg pre raw w)))))"
proof -
  obtain raw1 w1 where p: "run_searches E cfg pre raw w = (raw1, w1)"
    by (cases "run_searches E cfg pre raw w")
  obtain results w2 where s: "search_web E cfg (SearchQuery.query sq) 5 w1 = (results, w2)"
    by (cases "search_web E cfg (SearchQuery.query sq) 5 w1")
  have "map_of (fst (run_searches E cfg post
            (dict_set raw1 (SearchQuery.query sq) (SearchResults results)) w2)) (SearchQuery.query sq)
          = Some (SearchResults results)"
    using assms by (simp add: run_searches_other_key map_of_dict_set)
  with p s show ?thesis by (simp add: run_searches_append)
qed

lemma run_searches_values:
  assumes "\<And>qu w'. P (fst (search_web E cfg qu 5 w'))"
      and "\<forall>(k, v) \<in> set raw. \<exists>rs. v = SearchResults rs \<and> P rs"
  shows "\<forall>(k, v) \<in> set (fst (run_searches E cfg sqs raw w)). \<exists>rs. v = SearchResults rs \<and> P rs"
  using assms(2)
proof (induction sqs arbitrary: raw w)
  case Nil
  then show ?case by simp
next
  case (Cons sq sqs)
  obtain results w' where s: "search_web E cfg (SearchQuery.query sq) 5 w = (results, w')"
    by (cases "search_web E cfg (SearchQuery.query sq) 5 w")
  then have "P results" using assms(1)[of "SearchQuery.query sq" w] by simp
  with Cons.prems
  have "\<forall>(k, v) \<in> set (dict_set raw (SearchQuery.query sq) (SearchResults results)).
          \<exists>rs. v = SearchResults rs \<and> P rs"
    by (auto dest: dict_set_values)
  from Cons.IH[OF this] s show ?case by simp
qed

lemma llm_structured_calls:
  "llm_calls (snd (llm_structured E cfg sp up cls t w))
     = llm_calls w @ [structured_request E cfg sp up cls t]"
  by (simp add: llm_structured_def Let_def split: llm_outcome.split sum.split option.split)


subsection \<open>Validation\<close>

lemma bounded_range: "bounded lo hi f v = Some r \<Longrightarrow> lo \<le> r \<and> r \<le> hi"
  by (auto simp: bounded_def split: option.splits if_splits)

lemma bounded_rejects: "f v = Some r \<Longrightarrow> r < lo \<or> hi < r \<Longrightarrow> bounded lo hi f v = None"
  by (auto simp: bounded_def)

lemma required_Some:
  "required f kvs k = Some a \<Longrightarrow> \<exists>v. dict_lookup kvs k = Some v \<and> f v = Some a"
  by (auto simp: required_def split: option.splits)

lemma all_some_list_all:
  "all_some (map f xs) = Some ys \<Longrightarrow> (\<And>x y. f x = Some y \<Longrightarrow> P y) \<Longrightarrow> list_all P ys"
proof (induction xs arbitrary: ys)
  case Nil
  then show ?case by simp
next
  case (Cons x xs)
  then show ?case
    by (cases "f x"; cases "all_some (map f xs)") auto
qed

lemma validate_ExtractedFact_valid:
  "validate_ExtractedFact E v = Some f \<Longrightarrow> valid_ExtractedFact f"
  by (cases v)
     (auto simp: validate_ExtractedFact_def valid_ExtractedFact_def in_unit_interval_def
        bind_eq_Some_conv dest!: required_Some bounded_range)

lemma list_of_valid_facts:
  "list_of (validate_ExtractedFact E) v = Some fs \<Longrightarrow> list_all valid_ExtractedFact fs"
  by (cases v) (auto simp: list_of_def elim: all_some_list_all dest: validate_ExtractedFact_valid)

lemma validate_AgentAnswer_valid:
  "validate_AgentAnswer E v = Some a \<Longrightarrow> valid_AgentAnswer a"
  by (cases v)
     (auto simp: validate_AgentAnswer_def valid_AgentAnswer_def in_unit_interval_def
        bind_eq_Some_conv dest!: required_Some bounded_range list_of_valid_facts)

lemma model_validate_json_Inr:
  "model_validate_json E cls raw = Inr a
     \<Longrightarrow> \<exists>v. json_loads E raw = Some v \<and> model_validate cls v = Some a"
  by (auto simp: model_validate_json_def split: option.splits)


lemma out_of_range_ExtractedFact:
  assumes "dict_lookup kvs ''confidence'' = Some c" and "coerce_float E c = Some r"
      and "r < 0 \<or> 1 < r"
  shows "validate_ExtractedFact E (JObj kvs) = None"
proof -
  have "required (bounded 0 1 (coerce_float E)) kvs ''confidence'' = None"
    using assms by (simp add: required_def bounded_rejects)
  then show ?thesis
    by (simp add: validate_ExtractedFact_def split: Option.bind_split)
qed

lemma out_of_range_AgentAnswer:
  assumes "dict_lookup kvs ''confidence'' = Some c" and "coerce_float E c = Some r"
      and "r < 0 \<or> 1 < r"
  shows "validate_AgentAnswer E (JObj kvs) = None"
proof -
  have "required (bounded 0 1 (coerce_float E)) kvs ''confidence'' = None"
    using assms by (simp add: required_def bounded_rejects)
  then show ?thesis
    by (simp add: validate_AgentAnswer_def split: Option.bind_split)
qed

text \<open>
  Claim C4. A validated \<open>ExtractedFact\<close> or \<open>AgentAnswer\<close> has its confidence between 0 and
  1, and so has every key fact of a validated answer. A text whose \<open>confidence\<close> is read
  as a number below 0 or above 1 is rejected by both schemas.
\<close>

theorem confidence_within_bounds:
  "(\<forall>f. model_validate_json E (ExtractedFact_class E) raw = Inr f
        \<longrightarrow> 0 \<le> ExtractedFact.confidence f \<and> ExtractedFact.confidence f \<le> 1)
   \<and> (\<forall>a. model_validate_json E (AgentAnswer_class E) raw = Inr a
        \<longrightarrow> 0 \<le> AgentAnswer.confidence a \<and> AgentAnswer.confidence a \<le> 1
            \<and> (\<forall>f \<in> set (key_facts a).
                  0 \<le> ExtractedFact.confidence f \<and> ExtractedFact.confidence f \<le> 1))
   \<and> (\<forall>kvs c r. json_loads E raw = Some (JObj kvs) \<longrightarrow> dict_lookup kvs ''confidence'' = Some c
        \<longrightarrow> coerce_float E c = Some r \<longrightarrow> r < 0 \<or> 1 < r
        \<longrightarrow> model_validate_json E (ExtractedFact_class E) raw = Inl ValidationError
            \<and> model_validate_json E (AgentAnswer_class E) raw = Inl ValidationError)"
proof (intro conjI allI impI)
  fix f assume "model_validate_json E (ExtractedFact_class E) raw = Inr f"
  then have "valid_ExtractedFact f"
    by (auto simp: ExtractedFact_class_def dest!: model_validate_json_Inr validate_ExtractedFact_valid)
  then show "0 \<le> ExtractedFact.confidence f" and "ExtractedFact.confidence f \<le> 1"
    by (simp_all add: valid_ExtractedFact_def in_unit_interval_def)
next
  fix a assume "model_validate_json E (AgentAnswer_class E) raw = Inr a"
  then have v: "valid_AgentAnswer a"
    by (auto simp: AgentAnswer_class_def dest!: model_validate_json_Inr validate_AgentAnswer_valid)
  then show "0 \<le> AgentAnswer.confidence a" and "AgentAnswer.confidence a \<le> 1"
    by (simp_all add: valid_AgentAnswer_def in_unit_interval_def)
  from v show "\<forall>f \<in> set (key_facts a).
      0 \<le> ExtractedFact.confidence f \<and> ExtractedFact.confidence f \<le> 1"
    by (simp add: valid_AgentAnswer_def list_all_iff valid_ExtractedFact_def in_unit_interval_def)
next
  fix kvs c r
  assume "json_loads E raw = Some (JObj kvs)" "dict_lookup kvs ''confidence'' = Some c"
    "coerce_float E c = Some r" "r < 0 \<or> 1 < r"
  then show "model_validate_json E (ExtractedFact_class E) raw = Inl ValidationError"
    and "model_validate_json E (AgentAnswer_class E) raw = Inl ValidationError"
    by (simp_all add: model_validate_json_def ExtractedFact_class_def AgentAnswer_class_def
          out_of_range_ExtractedFact out_of_range_AgentAnswer)
qed

subsection \<open>The Execute step feeds the Extract step\<close>







subsection \<open>Search failures\<close>

lemma collect_results_non_object:
  "\<not> list_all is_object items \<Longrightarrow> collect_results items acc = Inl AttributeError"
proof (induction items arbitrary: acc)
  case Nil
  then show ?case by simp
next
  case (Cons r rs)
  then show ?case by (cases r) (simp_all add: is_object_def)
qed

lemma collect_results_strings:
  "collect_results (map JStr xs) [] = Inr rs \<Longrightarrow> rs = []"
  by (cases xs) simp_all

lemma search_web_try_failed:
  assumes "transport_failed (http_post E w req)" and "search_web_try E w req = Inr rs"
  shows "rs = []"
proof (cases "http_post E w req")
  case (PostRaises msg)
  with assms(2) show ?thesis by (simp add: search_web_try_def)
next
  case (PostResponse body)
  show ?thesis
  proof (cases body)
    case None
    with PostResponse assms(2) show ?thesis by (simp add: search_web_try_def)
  next
    case (Some data)
    with PostResponse assms(1) have nwf: "\<not> organic_well_formed data"
      by (simp add: transport_failed_def)
    show ?thesis
    proof (cases data)
      case (JObj kvs)
      show ?thesis
      proof (cases "dict_get kvs ''organic'' (JArr [])")
        case (JArr items)
        with nwf JObj have "\<not> list_all is_object items" by (simp add: organic_well_formed_def)
        then have "collect_results items [] = Inl AttributeError"
          by (rule collect_results_non_object)
        with PostResponse Some JObj JArr assms(2) show ?thesis
          by (simp add: search_web_try_def py_iter_def)
      next
        case (JStr s)
        have "map (\<lambda>c. JStr [c]) s = map JStr (map (\<lambda>c. [c]) s)" by simp
        with PostResponse Some JObj JStr assms(2) show ?thesis
          using collect_results_strings[of "map (\<lambda>c. [c]) s" rs]
          by (simp add: search_web_try_def py_iter_def)
      next
        case (JObj kvs')
        with PostResponse Some \<open>data = JObj kvs\<close> assms(2) show ?thesis
          using collect_results_strings[of "rev (remdups (rev (map fst kvs')))" rs]
          by (simp add: search_web_try_def py_iter_def)
      qed (use PostResponse Some JObj assms(2) in \<open>simp_all add: search_web_try_def py_iter_def\<close>)
    qed (use PostResponse Some assms(2) in \<open>simp_all add: search_web_try_def\<close>)
  qed
qed

lemma search_web_failed:
  assumes "SERPER_API_KEY cfg \<noteq> []"
      and "transport_failed (http_post E w \<lparr>x_api_key = SERPER_API_KEY cfg, q = qu, num = n\<rparr>)"
  shows "fst (search_web E cfg qu n w) = []"
proof (cases "search_web_try E w \<lparr>x_api_key = SERPER_API_KEY cfg, q = qu, num = n\<rparr>")
  case (Inl e)
  with assms(1) show ?thesis by (simp add: search_web_def)
next
  case (Inr rs)
  with search_web_try_failed[OF assms(2) Inr] assms(1) show ?thesis
    by (simp add: search_web_def)
qed


subsection \<open>Entries of the Execute step\<close>

lemma run_searches_query_entry:
  assumes "sq \<in> set sqs"
  shows "\<exists>w'. map_of (fst (run_searches E cfg sqs raw w)) (SearchQuery.query sq)
           = Some (SearchResults (fst (search_web E cfg (SearchQuery.query sq) 5 w')))"
proof -
  have "SearchQuery.query sq \<in> set (map SearchQuery.query sqs)" using assms by simp
  then obtain ys zs where split: "map SearchQuery.query sqs = ys @ SearchQuery.query sq # zs"
      and last: "SearchQuery.query sq \<notin> set zs"
    using split_list_last[of "SearchQuery.query sq" "map SearchQuery.query sqs"] by blast
  then obtain pre sq' post where sqs: "sqs = pre @ sq' # post"
      and "SearchQuery.query sq' = SearchQuery.query sq" and "map SearchQuery.query post = zs"
    by (auto simp: map_eq_append_conv map_eq_Cons_conv)
  with last have "SearchQuery.query sq' \<notin> SearchQuery.query ` set post" by auto
  from run_searches_last_wins[OF this, of E cfg pre raw w] sqs
    \<open>SearchQuery.query sq' = SearchQuery.query sq\<close>
  show ?thesis by auto
qed

lemma step_execute_query_entry:
  assumes "SearchQuery.query sq \<noteq> ''__url_fetch__'' \<or> fetch_target plan = None"
  shows "map_of (fst (step_execute E cfg plan w)) (SearchQuery.query sq)
           = map_of (fst (run_searches E cfg (search_queries plan) [] w)) (SearchQuery.query sq)"
proof -
  obtain raw w1 where r: "run_searches E cfg (search_queries plan) [] w = (raw, w1)"
    by (cases "run_searches E cfg (search_queries plan) [] w")
  show ?thesis
  proof (cases "fetch_target plan")
    case None
    with r show ?thesis by (simp add: step_execute_def)
  next
    case (Some url)
    obtain page w2 where f: "fetch_url E url 4000 w1 = (page, w2)"
      by (cases "fetch_url E url 4000 w1")
    from Some assms have "SearchQuery.query sq \<noteq> ''__url_fetch__''" by simp
    with r Some f show ?thesis by (simp add: step_execute_def map_of_dict_set)
  qed
qed

lemma step_execute_keys:
  "fst ` set (fst (step_execute E cfg plan w))
     = SearchQuery.query ` set (search_queries plan)
         \<union> (if fetch_target plan = None then {} else {''__url_fetch__''})"
proof -
  obtain raw w1 where r: "run_searches E cfg (search_queries plan) [] w = (raw, w1)"
    by (cases "run_searches E cfg (search_queries plan) [] w")
  then have k: "fst ` set raw = SearchQuery.query ` set (search_queries plan)"
    using run_searches_keys[of E cfg "search_queries plan" "[]" w] by simp
  show ?thesis
  proof (cases "fetch_target plan")
    case None
    with r k show ?thesis by (simp add: step_execute_def)
  next
    case (Some url)
    obtain page w2 where f: "fetch_url E url 4000 w1 = (page, w2)"
      by (cases "fetch_url E url 4000 w1")
    with r k Some show ?thesis by (simp add: step_execute_def dict_set_keys_set)
  qed
qed

lemma step_execute_distinct: "distinct (map fst (fst (step_execute E cfg plan w)))"
proof -
  obtain raw w1 where r: "run_searches E cfg (search_queries plan) [] w = (raw, w1)"
    by (cases "run_searches E cfg (search_queries plan) [] w")
  then have k: "distinct (map fst raw)"
    using run_searches_distinct[of "[]" E cfg "search_queries plan" w] by simp
  show ?thesis
  proof (cases "fetch_target plan")
    case None
    with r k show ?thesis by (simp add: step_execute_def)
  next
    case (Some url)
    obtain page w2 where f: "fetch_url E url 4000 w1 = (page, w2)"
      by (cases "fetch_url E url 4000 w1")
    with r k Some show ?thesis by (simp add: step_execute_def dict_set_distinct)
  qed
qed

lemma step_execute_fetch_entry:
  assumes "fetch_target plan = Some url"
  shows "map_of (fst (step_execute E cfg plan w)) ''__url_fetch__''
           = Some (PageText (fst (fetch_url E url 4000
                (snd (run_searches E cfg (search_queries plan) [] w)))))"
proof -
  obtain raw w1 where r: "run_searches E cfg (search_queries plan) [] w = (raw, w1)"
    by (cases "run_searches E cfg (search_queries plan) [] w")
  obtain page w2 where f: "fetch_url E url 4000 w1 = (page, w2)"
    by (cases "fetch_url E url 4000 w1")
  with r assms show ?thesis by (simp add: step_execute_def map_of_dict_set)
qed

lemma step_execute_search_values:
  assumes "\<And>qu w'. P (fst (search_web E cfg qu 5 w'))"
      and "(k, SearchResults rs) \<in> set (fst (step_execute E cfg plan w))"
  shows "P rs"
proof -
  obtain raw w1 where r: "run_searches E cfg (search_queries plan) [] w = (raw, w1)"
    by (cases "run_searches E cfg (search_queries plan) [] w")
  have "\<forall>(k, v) \<in> set (fst (run_searches E cfg (search_queries plan) [] w)).
          \<exists>rs. v = SearchResults rs \<and> P rs"
    by (rule run_searches_values) (use assms(1) in simp_all)
  with r have raw: "\<forall>(k, v) \<in> set raw. \<exists>rs. v = SearchResults rs \<and> P rs" by simp
  show ?thesis
  proof (cases "fetch_target plan")
    case None
    with r assms(2) raw show ?thesis by (auto simp: step_execute_def)
  next
    case (Some url)
    obtain page w2 where f: "fetch_url E url 4000 w1 = (page, w2)"
      by (cases "fetch_url E url 4000 w1")
    with r Some assms(2)
    have "(k, SearchResults rs) \<in> set (dict_set raw ''__url_fetch__'' (PageText page))"
      by (simp add: step_execute_def)
    then have "(k, SearchResults rs) \<in> set raw" by (auto dest: dict_set_values)
    with raw show ?thesis by auto
  qed
qed

lemma fetch_target_wanted:
  "fetch_target plan \<noteq> None
     \<longleftrightarrow> needs_url_fetch plan \<and> target_url plan \<noteq> None \<and> target_url plan \<noteq> Some []"
  by (auto simp: fetch_target_def split: option.splits)

text \<open>
  Claim C3, as amended. With a search key set, \<open>search_web\<close> returns the empty list when
  the POST raises, when its body is not JSON, and when the body has not the shape of a
  result page. If every call of the search service fails so, \<open>step_execute\<close> still returns
  its mapping: every planned query is a key of it, every list of search results in it is
  empty, and a planned query is mapped to the empty list unless it is spelled
  \<open>__url_fetch__\<close> and a page is fetched.
\<close>

theorem search_failures_absorbed:
  "(SERPER_API_KEY cfg \<noteq> []
      \<longrightarrow> transport_failed (http_post E w \<lparr>x_api_key = SERPER_API_KEY cfg, q = qu, num = n\<rparr>)
      \<longrightarrow> fst (search_web E cfg qu n w) = [])
   \<and> (SERPER_API_KEY cfg \<noteq> [] \<longrightarrow> (\<forall>w' req. transport_failed (http_post E w' req))
      \<longrightarrow> SearchQuery.query ` set (search_queries plan)
             \<subseteq> fst ` set (fst (step_execute E cfg plan w))
          \<and> (\<forall>k rs. (k, SearchResults rs) \<in> set (fst (step_execute E cfg plan w)) \<longrightarrow> rs = [])
          \<and> (\<forall>sq \<in> set (search_queries plan).
                \<not> (SearchQuery.query sq = ''__url_fetch__'' \<and> needs_url_fetch plan
                     \<and> target_url plan \<noteq> None \<and> target_url plan \<noteq> Some [])
                \<longrightarrow> map_of (fst (step_execute E cfg plan w)) (SearchQuery.query sq)
                      = Some (SearchResults [])))"
proof (intro conjI impI)
  assume "SERPER_API_KEY cfg \<noteq> []"
    and "transport_failed (http_post E w \<lparr>x_api_key = SERPER_API_KEY cfg, q = qu, num = n\<rparr>)"
  then show "fst (search_web E cfg qu n w) = []" by (rule search_web_failed)
next
  show "SearchQuery.query ` set (search_queries plan)
          \<subseteq> fst ` set (fst (step_execute E cfg plan w))"
    unfolding step_execute_keys by blast
next
  assume key: "SERPER_API_KEY cfg \<noteq> []" and all: "\<forall>w' req. transport_failed (http_post E w' req)"
  have empty: "fst (search_web E cfg qu' 5 w') = []" for qu' w'
    using key all by (simp add: search_web_failed)
  show "\<forall>k rs. (k, SearchResults rs) \<in> set (fst (step_execute E cfg plan w)) \<longrightarrow> rs = []"
    using step_execute_search_values[of "\<lambda>rs. rs = []" E cfg _ _ plan w] empty by blast
  show "\<forall>sq \<in> set (search_queries plan).
          \<not> (SearchQuery.query sq = ''__url_fetch__'' \<and> needs_url_fetch plan
               \<and> target_url plan \<noteq> None \<and> target_url plan \<noteq> Some [])
          \<longrightarrow> map_of (fst (step_execute E cfg plan w)) (SearchQuery.query sq)
                = Some (SearchResults [])"
  proof (intro ballI impI)
    fix sq assume sq: "sq \<in> set (search_queries plan)"
      and ng: "\<not> (SearchQuery.query sq = ''__url_fetch__'' \<and> needs_url_fetch plan
               \<and> target_url plan \<noteq> None \<and> target_url plan \<noteq> Some [])"
    from ng fetch_target_wanted[of plan]
    have nc: "SearchQuery.query sq \<noteq> ''__url_fetch__'' \<or> fetch_target plan = None"
      by blast
    from run_searches_query_entry[OF sq, of E cfg "[]" w] empty
    have "map_of (fst (run_searches E cfg (search_queries plan) [] w)) (SearchQuery.query sq)
            = Some (SearchResults [])" by auto
    with step_execute_query_entry[OF nc, of E cfg w]
    show "map_of (fst (step_execute E cfg plan w)) (SearchQuery.query sq)
            = Some (SearchResults [])" by simp
  qed
qed


lemma step_execute_entries_general:
  "distinct (map fst (fst (step_execute E cfg plan w)))
   \<and> fst ` set (fst (step_execute E cfg plan w))
       = SearchQuery.query ` set (search_queries plan)
           \<union> (if fetch_target plan = None then {} else {''__url_fetch__''})
   \<and> (fetch_target plan \<noteq> None
        \<longleftrightarrow> needs_url_fetch plan \<and> target_url plan \<noteq> None \<and> target_url plan \<noteq> Some [])
   \<and> (\<forall>pre sq post.
         search_queries plan = pre @ sq # post
         \<longrightarrow> SearchQuery.query sq \<notin> SearchQuery.query ` set post
         \<longrightarrow> SearchQuery.query sq \<noteq> ''__url_fetch__'' \<or> fetch_target plan = None
         \<longrightarrow> map_of (fst (step_execute E cfg plan w)) (SearchQuery.query sq)
               = Some (SearchResults (fst (search_web E cfg (SearchQuery.query sq) 5
                    (snd (run_searches E cfg pre [] w))))))
   \<and> (\<forall>url. fetch_target plan = Some url
         \<longrightarrow> map_of (fst (step_execute E cfg plan w)) ''__url_fetch__''
               = Some (PageText (fst (fetch_url E url 4000
                    (snd (run_searches E cfg (search_queries plan) [] w))))))"
proof (intro conjI allI impI)
  show "distinct (map fst (fst (step_execute E cfg plan w)))" by (rule step_execute_distinct)
  show "fst ` set (fst (step_execute E cfg plan w))
       = SearchQuery.query ` set (search_queries plan)
           \<union> (if fetch_target plan = None then {} else {''__url_fetch__''})"
    by (rule step_execute_keys)
  show "fetch_target plan \<noteq> None
        \<longleftrightarrow> needs_url_fetch plan \<and> target_url plan \<noteq> None \<and> target_url plan \<noteq> Some []"
    by (auto simp: fetch_target_def split: option.splits)
next
  fix pre sq post
  assume "search_queries plan = pre @ sq # post"
    and "SearchQuery.query sq \<notin> SearchQuery.query ` set post"
    and nc: "SearchQuery.query sq \<noteq> ''__url_fetch__'' \<or> fetch_target plan = None"
  then have "map_of (fst (run_searches E cfg (search_queries plan) [] w)) (SearchQuery.query sq)
      = Some (SearchResults (fst (search_web E cfg (SearchQuery.query sq) 5
                    (snd (run_searches E cfg pre [] w)))))"
    by (simp add: run_searches_last_wins)
  with step_execute_query_entry[OF nc, of E cfg w]
  show "map_of (fst (step_execute E cfg plan w)) (SearchQuery.query sq)
               = Some (SearchResults (fst (search_web E cfg (SearchQuery.query sq) 5
                    (snd (run_searches E cfg pre [] w)))))" by simp
next
  fix url assume "fetch_target plan = Some url"
  then show "map_of (fst (step_execute E cfg plan w)) ''__url_fetch__''
               = Some (PageText (fst (fetch_url E url 4000
                    (snd (run_searches E cfg (search_queries plan) [] w)))))"
    by (rule step_execute_fetch_entry)
qed

text \<open>
  Claim C10, as amended. For a plan none of whose queries is spelled \<open>__url_fetch__\<close>:
  the keys of the mapping of \<open>step_execute\<close> are distinct; they are the planned query
  strings, and \<open>__url_fetch__\<close> as well exactly when \<open>needs_url_fetch\<close> holds and
  \<open>target_url\<close> is a non-empty string; the mapping has one entry for each of them; and a
  query string holds the results of the last task that has it.
\<close>

theorem step_execute_entries:
  "''__url_fetch__'' \<notin> SearchQuery.query ` set (search_queries plan) \<longrightarrow>
     distinct (map fst (fst (step_execute E cfg plan w)))
     \<and> fst ` set (fst (step_execute E cfg plan w))
         = SearchQuery.query ` set (search_queries plan)
             \<union> (if needs_url_fetch plan \<and> target_url plan \<noteq> None \<and> target_url plan \<noteq> Some []
                then {''__url_fetch__''} else {})
     \<and> length (fst (step_execute E cfg plan w))
         = card (SearchQuery.query ` set (search_queries plan))
             + (if needs_url_fetch plan \<and> target_url plan \<noteq> None \<and> target_url plan \<noteq> Some []
                then 1 else 0)
     \<and> (\<forall>pre sq post.
           search_queries plan = pre @ sq # post
           \<longrightarrow> SearchQuery.query sq \<notin> SearchQuery.query ` set post
           \<longrightarrow> map_of (fst (step_execute E cfg plan w)) (SearchQuery.query sq)
                 = Some (SearchResults (fst (search_web E cfg (SearchQuery.query sq) 5
                      (snd (run_searches E cfg pre [] w))))))"
proof (intro impI conjI allI)
  assume nk: "''__url_fetch__'' \<notin> SearchQuery.query ` set (search_queries plan)"
  let ?d = "fst (step_execute E cfg plan w)"
  let ?Q = "SearchQuery.query ` set (search_queries plan)"
  let ?wanted = "needs_url_fetch plan \<and> target_url plan \<noteq> None \<and> target_url plan \<noteq> Some []"
  show d: "distinct (map fst ?d)" by (rule step_execute_distinct)
  show k: "fst ` set ?d = ?Q \<union> (if ?wanted then {''__url_fetch__''} else {})"
    using step_execute_keys[of E cfg plan w] fetch_target_wanted[of plan] by auto
  have "length ?d = length (map fst ?d)" by simp
  also have "\<dots> = card (set (map fst ?d))" using d by (simp only: distinct_card)
  also have "\<dots> = card (?Q \<union> (if ?wanted then {''__url_fetch__''} else {}))"
    using k by simp
  also have "\<dots> = card ?Q + (if ?wanted then 1 else 0)"
    using nk by simp
  finally show "length ?d = card ?Q + (if ?wanted then 1 else 0)" .
next
  fix pre sq post
  assume nk: "''__url_fetch__'' \<notin> SearchQuery.query ` set (search_queries plan)"
    and s: "search_queries plan = pre @ sq # post"
    and l: "SearchQuery.query sq \<notin> SearchQuery.query ` set post"
  from nk s have "SearchQuery.query sq \<noteq> ''__url_fetch__'' \<or> fetch_target plan = None"
    by auto
  with step_execute_entries_general[of E cfg plan w] s l
  show "map_of (fst (step_execute E cfg plan w)) (SearchQuery.query sq)
          = Some (SearchResults (fst (search_web E cfg (SearchQuery.query sq) 5
               (snd (run_searches E cfg pre [] w)))))"
    by blast
qed

subsection \<open>The first call of a run\<close>

lemma step_extract_calls_prefix:
  "\<exists>xs. llm_calls (snd (step_extract E cfg qu raw w)) = llm_calls w @ xs"
  by (cases "context_lines E raw []") (simp_all add: step_extract_def llm_structured_calls)

lemma run_agent_first_call:
  "\<exists>rest. llm_calls (snd (run_agent E cfg qu w))
     = llm_calls w
         @ structured_request E cfg PLAN_SYSTEM (''User query: '' @ qu) (AgentPlan_class E)
             DEFAULT_TEMPERATURE # rest"
proof -
  obtain pr w1 where p: "step_plan E cfg qu w = (pr, w1)" by (cases "step_plan E cfg qu w")
  then have "w1 = snd (step_plan E cfg qu w)" by simp
  then have c1: "llm_calls w1 = llm_calls w
         @ [structured_request E cfg PLAN_SYSTEM (''User query: '' @ qu) (AgentPlan_class E)
             DEFAULT_TEMPERATURE]"
    unfolding step_plan_def by (simp add: llm_structured_calls)
  show ?thesis
  proof (cases pr)
    case (Inl e)
    with p c1 show ?thesis by (simp add: run_agent_def)
  next
    case (Inr plan)
    obtain raw w2 where x: "step_execute E cfg plan w1 = (raw, w2)"
      by (cases "step_execute E cfg plan w1")
    then have c2: "llm_calls w2 = llm_calls w1"
      using step_execute_llm_calls[of E cfg plan w1] by simp
    obtain r w3 where t: "step_extract E cfg qu raw w2 = (r, w3)"
      by (cases "step_extract E cfg qu raw w2")
    with step_extract_calls_prefix[of E cfg qu raw w2]
    obtain xs where c3: "llm_calls w3 = llm_calls w2 @ xs" by auto
    show ?thesis
    proof (cases r)
      case (Inl e)
      with p Inr x t c1 c2 c3 show ?thesis by (simp add: run_agent_def)
    next
      case (Inr facts)
      with p \<open>pr = Inr plan\<close> x t c1 c2 c3 show ?thesis
        by (simp add: run_agent_def step_synthesize_def llm_structured_calls)
    qed
  qed
qed

text \<open>
  Claim C8, as amended. The module initialises under every environment. Where
  \<open>GROQ_API_KEY\<close> is not set, the key is the placeholder text and every run issues its
  first completion call with that key.
\<close>

theorem missing_key_is_placeholder:
  "module_init environ
     = Inr \<lparr>GROQ_API_KEY = getenv environ ''GROQ_API_KEY'' ''YOUR_GROQ_API_KEY_HERE'',
            SERPER_API_KEY = getenv environ ''SERPER_API_KEY'' []\<rparr>
   \<and> (environ ''GROQ_API_KEY'' = None
        \<longrightarrow> (\<exists>cfg. module_init environ = Inr cfg
               \<and> GROQ_API_KEY cfg = ''YOUR_GROQ_API_KEY_HERE''
               \<and> (\<forall>E qu w. \<exists>req rest.
                     llm_calls (snd (run_agent E cfg qu w)) = llm_calls w @ req # rest
                     \<and> api_key req = ''YOUR_GROQ_API_KEY_HERE'')))"
proof (intro conjI impI)
  let ?cfg = "\<lparr>GROQ_API_KEY = getenv environ ''GROQ_API_KEY'' ''YOUR_GROQ_API_KEY_HERE'',
               SERPER_API_KEY = getenv environ ''SERPER_API_KEY'' []\<rparr>"
  show i: "module_init environ = Inr ?cfg" by (simp add: module_init_def Groq_def)
  assume n: "environ ''GROQ_API_KEY'' = None"
  then have k: "GROQ_API_KEY ?cfg = ''YOUR_GROQ_API_KEY_HERE''" by (simp add: getenv_def)
  have "\<exists>req rest. llm_calls (snd (run_agent E ?cfg qu w)) = llm_calls w @ req # rest
            \<and> api_key req = ''YOUR_GROQ_API_KEY_HERE''" for E qu w
  proof -
    from run_agent_first_call[of E ?cfg qu w] obtain rest where
      "llm_calls (snd (run_agent E ?cfg qu w)) = llm_calls w
         @ structured_request E ?cfg PLAN_SYSTEM (''User query: '' @ qu) (AgentPlan_class E)
             DEFAULT_TEMPERATURE # rest" by blast
    moreover have "api_key (structured_request E ?cfg PLAN_SYSTEM (''User query: '' @ qu)
       (AgentPlan_class E) DEFAULT_TEMPERATURE) = ''YOUR_GROQ_API_KEY_HERE''"
      using k by (simp add: structured_request_def)
    ultimately show ?thesis by blast
  qed
  with i k show "\<exists>cfg. module_init environ = Inr cfg
               \<and> GROQ_API_KEY cfg = ''YOUR_GROQ_API_KEY_HERE''
               \<and> (\<forall>E qu w. \<exists>req rest.
                     llm_calls (snd (run_agent E cfg qu w)) = llm_calls w @ req # rest
                     \<and> api_key req = ''YOUR_GROQ_API_KEY_HERE'')"
    by (intro exI[of _ ?cfg]) simp
qed

subsection \<open>The length of a fetched text\<close>

lemma py_slice_to_length: "0 \<le> n \<Longrightarrow> int (length (py_slice_to s n)) \<le> n"
  by (simp add: py_slice_to_def)

text \<open>
  Claim C6, as amended. When the GET returns and the text extraction does not raise,
  \<open>fetch_url\<close> returns the extracted text sliced by \<open>max_chars\<close>: for a \<open>max_chars\<close> that is
  not negative these are its first \<open>max_chars\<close> characters, so at most \<open>max_chars\<close> of them.
  When the GET raises or the HTML parser raises, the placeholder is returned whole whatever
  \<open>max_chars\<close> is: its length is 19 more than the lengths of the URL and of the message
  together.
\<close>

theorem fetch_url_length:
  "(\<forall>body. http_get E w url = GetResponse body \<longrightarrow> \<not> bs4_installed E
       \<longrightarrow> fst (fetch_url E url max_chars w) = py_slice_to (re_sub_tags body) max_chars
          \<and> (0 \<le> max_chars
               \<longrightarrow> fst (fetch_url E url max_chars w) = take (nat max_chars) (re_sub_tags body)
                  \<and> int (length (fst (fetch_url E url max_chars w))) \<le> max_chars))
   \<and> (\<forall>body page. http_get E w url = GetResponse body \<longrightarrow> bs4_installed E
       \<longrightarrow> soup_get_text E body = Inr page
       \<longrightarrow> fst (fetch_url E url max_chars w) = py_slice_to page max_chars
          \<and> (0 \<le> max_chars
               \<longrightarrow> fst (fetch_url E url max_chars w) = take (nat max_chars) page
                  \<and> int (length (fst (fetch_url E url max_chars w))) \<le> max_chars))
   \<and> (\<forall>msg. http_get E w url = GetRaises msg
              \<or> (\<exists>body. http_get E w url = GetResponse body \<and> bs4_installed E
                     \<and> soup_get_text E body = Inl msg)
       \<longrightarrow> fst (fetch_url E url max_chars w) = ''[ERROR fetching '' @ url @ '': '' @ msg @ '']''
          \<and> length (fst (fetch_url E url max_chars w)) = 19 + length url + length msg)"
proof (intro conjI allI impI)
  fix body
  assume g: "http_get E w url = GetResponse body" and b: "\<not> bs4_installed E"
  then show r: "fst (fetch_url E url max_chars w) = py_slice_to (re_sub_tags body) max_chars"
    by (simp add: fetch_url_def fetch_url_try_def Let_def)
  assume m: "0 \<le> max_chars"
  with r show "fst (fetch_url E url max_chars w) = take (nat max_chars) (re_sub_tags body)"
    by (simp add: py_slice_to_def)
  from r m show "int (length (fst (fetch_url E url max_chars w))) \<le> max_chars"
    by (simp add: py_slice_to_length)
next
  fix body page
  assume g: "http_get E w url = GetResponse body" and b: "bs4_installed E"
    and p: "soup_get_text E body = Inr page"
  then show r: "fst (fetch_url E url max_chars w) = py_slice_to page max_chars"
    by (simp add: fetch_url_def fetch_url_try_def Let_def)
  assume m: "0 \<le> max_chars"
  with r show "fst (fetch_url E url max_chars w) = take (nat max_chars) page"
    by (simp add: py_slice_to_def)
  from r m show "int (length (fst (fetch_url E url max_chars w))) \<le> max_chars"
    by (simp add: py_slice_to_length)
next
  fix msg
  assume "http_get E w url = GetRaises msg
      \<or> (\<exists>body. http_get E w url = GetResponse body \<and> bs4_installed E
             \<and> soup_get_text E body = Inl msg)"
  then have t: "fetch_url_try E w url max_chars = Inl msg"
    by (auto simp: fetch_url_try_def)
  then show "fst (fetch_url E url max_chars w) = ''[ERROR fetching '' @ url @ '': '' @ msg @ '']''"
    by (simp add: fetch_url_def Let_def)
  then show "length (fst (fetch_url E url max_chars w)) = 19 + length url + length msg"
    by simp
qed

subsection \<open>The sources of an answer\<close>

text \<open>
  Claim C7, as amended. \<open>step_synthesize\<close> is one call of \<open>llm_structured\<close>. The sources of
  the facts are listed once each at the end of its prompt. The answer returned is the
  validated value of the response text, so its \<open>sources\<close> are those the provider wrote.
\<close>

theorem synthesize_sources:
  "step_synthesize E cfg qu facts raw w
     = llm_structured E cfg SYNTHESIZE_SYSTEM (synthesize_prompt E qu facts)
         (AgentAnswer_class E) DEFAULT_TEMPERATURE w
   \<and> distinct (known_sources facts)
   \<and> set (known_sources facts) = source ` set facts
   \<and> (\<exists>pre. synthesize_prompt E qu facts
         = pre @ ''Known sources: '' @ list_repr E (known_sources facts))
   \<and> (\<forall>a. fst (step_synthesize E cfg qu facts raw w) = Inr a
        \<longrightarrow> (\<exists>content rest cleaned v.
               completion E w (structured_request E cfg SYNTHESIZE_SYSTEM
                   (synthesize_prompt E qu facts) (AgentAnswer_class E) DEFAULT_TEMPERATURE)
                 = LLMResponse (Some content # rest)
               \<and> strip_fences content = Inr cleaned
               \<and> json_loads E cleaned = Some v
               \<and> validate_AgentAnswer E v = Some a))"
proof (intro conjI allI impI)
  show "\<exists>pre. synthesize_prompt E qu facts
         = pre @ ''Known sources: '' @ list_repr E (known_sources facts)"
    unfolding synthesize_prompt_def
    by (rule exI[of _ "''Original question: '' @ qu @ NL @ NL
       @ ''Extracted facts:'' @ NL @ facts_dumps E facts @ NL @ NL"]) simp
next
  fix a assume "fst (step_synthesize E cfg qu facts raw w) = Inr a"
  then show "\<exists>content rest cleaned v.
               completion E w (structured_request E cfg SYNTHESIZE_SYSTEM
                   (synthesize_prompt E qu facts) (AgentAnswer_class E) DEFAULT_TEMPERATURE)
                 = LLMResponse (Some content # rest)
               \<and> strip_fences content = Inr cleaned
               \<and> json_loads E cleaned = Some v
               \<and> validate_AgentAnswer E v = Some a"
    by (auto simp: step_synthesize_def llm_structured_def Let_def py_index_def AgentAnswer_class_def
          neq_Nil_conv
          split: llm_outcome.splits sum.splits option.splits if_splits
          dest!: model_validate_json_Inr)
qed (simp_all add: step_synthesize_def known_sources_def)

subsection \<open>A run of the whole chain\<close>

lemmas string_defs = py_strip_def py_isspace_def py_startswith_def py_split_def py_index_def NL_def

lemmas validate_defs =
  model_validate_json_def AgentPlan_class_def FactList_class_def AgentAnswer_class_def
  ExtractedFact_class_def validate_AgentPlan_def validate_SearchQuery_def
  validate_ExtractedFact_def validate_FactList_def validate_AgentAnswer_def required_def
  with_default_def bounded_def list_of_def optional_def dict_lookup_def

lemmas scripted_defs = scripted_def script_at_def fresh_world_def













subsection \<open>Runs for the structured completion\<close>

lemmas tool_defs =
  search_web_def search_web_try_def py_iter_def dict_get_def dict_lookup_def dict_set_def
  fetch_url_def fetch_url_try_def step_execute_def fetch_target_def

lemma strip_fences_not_json: "strip_fences ''not json'' = Inr ''not json''"
  by (simp add: strip_fences_def string_defs)

lemma retry_env_rejects:
  "model_validate_json retry_env (AgentPlan_class retry_env) ''not json'' = Inl ValidationError"
  by (simp add: model_validate_json_def retry_env_def scripted_defs plan_text_def)

lemma retry_env_first:
  "completion retry_env fresh_world req = LLMResponse [Some ''not json'']"
  by (simp add: retry_env_def scripted_defs)

text \<open>
  Claim C1, as amended. Every call of \<open>llm_structured\<close> issues exactly one chat completion,
  which is within the bound of two. When the text of that response fails validation, the
  \<open>ValidationError\<close> is returned at once: there is no retry and no amended prompt.
\<close>

theorem llm_structured_single_call:
  "llm_calls (snd (llm_structured E cfg sp up cls t w))
     = llm_calls w @ [structured_request E cfg sp up cls t]
   \<and> length (llm_calls (snd (llm_structured E cfg sp up cls t w))) \<le> length (llm_calls w) + 2
   \<and> (\<forall>content rest raw.
         completion E w (structured_request E cfg sp up cls t) = LLMResponse (Some content # rest)
         \<longrightarrow> strip_fences content = Inr raw
         \<longrightarrow> model_validate_json E cls raw = Inl ValidationError
         \<longrightarrow> fst (llm_structured E cfg sp up cls t w) = Inl ValidationError)"
  by (simp add: llm_structured_def Let_def py_index_def
        split: llm_outcome.split sum.split option.split)

theorem llm_structured_single_call_witness:
  "completion retry_env fresh_world
       (structured_request retry_env demo_cfg ''s'' ''u'' (AgentPlan_class retry_env)
          DEFAULT_TEMPERATURE) = LLMResponse [Some ''not json'']
   \<and> strip_fences ''not json'' = Inr ''not json''
   \<and> model_validate_json retry_env (AgentPlan_class retry_env) ''not json'' = Inl ValidationError
   \<and> fst (llm_structured retry_env demo_cfg ''s'' ''u'' (AgentPlan_class retry_env)
            DEFAULT_TEMPERATURE fresh_world) = Inl ValidationError
   \<and> length (llm_calls (snd (llm_structured retry_env demo_cfg ''s'' ''u''
            (AgentPlan_class retry_env) DEFAULT_TEMPERATURE fresh_world))) = 1"
  using llm_structured_single_call[of retry_env demo_cfg "''s''" "''u''"
          "AgentPlan_class retry_env" DEFAULT_TEMPERATURE fresh_world]
    retry_env_first strip_fences_not_json retry_env_rejects
  by (simp add: fresh_world_def)

theorem llm_structured_retry_counterexample:
  "model_validate_json retry_env (AgentPlan_class retry_env) ''not json'' = Inl ValidationError
   \<and> model_validate_json retry_env (AgentPlan_class retry_env) plan_text = Inr empty_plan
   \<and> fst (llm_structured retry_env demo_cfg ''s'' ''u'' (AgentPlan_class retry_env)
            DEFAULT_TEMPERATURE fresh_world) = Inl ValidationError
   \<and> length (llm_calls (snd (llm_structured retry_env demo_cfg ''s'' ''u''
            (AgentPlan_class retry_env) DEFAULT_TEMPERATURE fresh_world))) = 1"
proof -
  have "model_validate_json retry_env (AgentPlan_class retry_env) plan_text = Inr empty_plan"
    by (simp add: validate_defs retry_env_def scripted_defs plan_json_def empty_plan_def)
  moreover have "fst (llm_structured retry_env demo_cfg ''s'' ''u'' (AgentPlan_class retry_env)
            DEFAULT_TEMPERATURE fresh_world) = Inl ValidationError"
    by (simp add: llm_structured_def Let_def py_index_def retry_env_first strip_fences_not_json
          retry_env_rejects)
  moreover have "length (llm_calls (snd (llm_structured retry_env demo_cfg ''s'' ''u''
            (AgentPlan_class retry_env) DEFAULT_TEMPERATURE fresh_world))) = 1"
    by (simp add: llm_structured_calls fresh_world_def)
  ultimately show ?thesis using retry_env_rejects by simp
qed

subsection \<open>Runs of the agent\<close>



subsection \<open>Runs without a search service\<close>

lemma offline_failed: "transport_failed (http_post offline_env w req)"
  by (simp add: offline_env_def scripted_defs transport_failed_def)

theorem search_failures_absorbed_witness:
  "SERPER_API_KEY demo_cfg \<noteq> []
   \<and> transport_failed (http_post offline_env fresh_world
         \<lparr>x_api_key = SERPER_API_KEY demo_cfg, q = ''a'', num = 5\<rparr>)
   \<and> fst (search_web offline_env demo_cfg ''a'' 5 fresh_world) = []
   \<and> map_of (fst (step_execute offline_env demo_cfg aba_plan fresh_world)) ''a''
       = Some (SearchResults [])
   \<and> map_of (fst (step_execute offline_env demo_cfg aba_plan fresh_world)) ''b''
       = Some (SearchResults [])"
proof -
  note t = search_failures_absorbed[of demo_cfg offline_env fresh_world "''a''" 5 aba_plan]
  have k: "SERPER_API_KEY demo_cfg \<noteq> []" by (simp add: demo_cfg_def)
  note e = t[THEN conjunct2, rule_format, OF k offline_failed, THEN conjunct2, THEN conjunct2,
      rule_format]
  have n: "\<not> (SearchQuery.query sq = ''__url_fetch__'' \<and> needs_url_fetch aba_plan
       \<and> target_url aba_plan \<noteq> None \<and> target_url aba_plan \<noteq> Some [])" for sq
    by (simp add: aba_plan_def)
  have a: "\<lparr>SearchQuery.query = ''a'', reason = ''first''\<rparr> \<in> set (search_queries aba_plan)"
    by (simp add: aba_plan_def)
  have b: "\<lparr>SearchQuery.query = ''b'', reason = ''second''\<rparr> \<in> set (search_queries aba_plan)"
    by (simp add: aba_plan_def)
  from e[OF a n] have 1: "map_of (fst (step_execute offline_env demo_cfg aba_plan fresh_world)) ''a''
       = Some (SearchResults [])" by simp
  from e[OF b n] have 2: "map_of (fst (step_execute offline_env demo_cfg aba_plan fresh_world)) ''b''
       = Some (SearchResults [])" by simp
  note t[THEN conjunct1, rule_format, OF k offline_failed]
  with 1 2 k offline_failed show ?thesis by simp
qed

theorem failed_query_page_text_counterexample:
  "SERPER_API_KEY demo_cfg \<noteq> []
   \<and> search_queries collide_fetch_plan
       = [\<lparr>SearchQuery.query = ''__url_fetch__'', reason = ''r''\<rparr>]
   \<and> transport_failed (http_post offline_env fresh_world
         \<lparr>x_api_key = SERPER_API_KEY demo_cfg, q = ''__url_fetch__'', num = 5\<rparr>)
   \<and> fst (search_web offline_env demo_cfg ''__url_fetch__'' 5 fresh_world) = []
   \<and> fst (step_execute offline_env demo_cfg collide_fetch_plan fresh_world)
       = [(''__url_fetch__'', PageText ''[ERROR fetching http://a.test: no more responses]'')]
   \<and> map_of (fst (step_execute offline_env demo_cfg collide_fetch_plan fresh_world))
         ''__url_fetch__'' \<noteq> Some (SearchResults [])"
proof -
  have k: "SERPER_API_KEY demo_cfg \<noteq> []" by (simp add: demo_cfg_def)
  have q: "search_queries collide_fetch_plan
       = [\<lparr>SearchQuery.query = ''__url_fetch__'', reason = ''r''\<rparr>]"
    by (simp add: collide_fetch_plan_def)
  have s: "fst (search_web offline_env demo_cfg ''__url_fetch__'' 5 fresh_world) = []"
    using k offline_failed by (rule search_web_failed)
  have x: "fst (step_execute offline_env demo_cfg collide_fetch_plan fresh_world)
       = [(''__url_fetch__'', PageText ''[ERROR fetching http://a.test: no more responses]'')]"
    by (simp add: tool_defs Let_def demo_cfg_def collide_fetch_plan_def offline_env_def
          scripted_defs)
  from k q s x offline_failed show ?thesis by simp
qed

subsection \<open>Runs of the validators\<close>

lemma fact_texts_differ: "fact_text \<noteq> high_fact_text" "high_fact_text \<noteq> fact_text"
  by (simp_all add: fact_text_def high_fact_text_def)

theorem confidence_within_bounds_witness:
  "model_validate_json fact_env (ExtractedFact_class fact_env) fact_text
     = Inr \<lparr>fact = ''f'', source = ''s'', ExtractedFact.confidence = 1 / 2\<rparr>
   \<and> (0::rat) \<le> 1 / 2 \<and> (1 / 2 :: rat) \<le> 1
   \<and> model_validate_json dup_env (AgentAnswer_class dup_env) dup_answer_text = Inr dup_answer
   \<and> 0 \<le> AgentAnswer.confidence dup_answer \<and> AgentAnswer.confidence dup_answer \<le> 1
   \<and> json_loads fact_env high_fact_text
       = Some (JObj [(''fact'', JStr ''f''), (''source'', JStr ''s''), (''confidence'', JNum (3 / 2))])
   \<and> coerce_float fact_env (JNum (3 / 2)) = Some (3 / 2) \<and> (1::rat) < 3 / 2
   \<and> model_validate_json fact_env (ExtractedFact_class fact_env) high_fact_text
       = Inl ValidationError
   \<and> model_validate_json fact_env (AgentAnswer_class fact_env) high_fact_text
       = Inl ValidationError"
proof -
  have g: "model_validate_json fact_env (ExtractedFact_class fact_env) fact_text
     = Inr \<lparr>fact = ''f'', source = ''s'', ExtractedFact.confidence = 1 / 2\<rparr>"
    by (simp add: validate_defs fact_env_def scripted_defs)
  have d: "model_validate_json dup_env (AgentAnswer_class dup_env) dup_answer_text = Inr dup_answer"
    by (simp add: validate_defs dup_env_def scripted_defs dup_answer_json_def dup_answer_def)
  have j: "json_loads fact_env high_fact_text
       = Some (JObj [(''fact'', JStr ''f''), (''source'', JStr ''s''), (''confidence'', JNum (3 / 2))])"
    by (simp add: fact_env_def scripted_defs fact_texts_differ)
  have l: "dict_lookup [(''fact'', JStr ''f''), (''source'', JStr ''s''), (''confidence'', JNum (3 / 2))]
      ''confidence'' = Some (JNum (3 / 2))"
    by (simp add: dict_lookup_def)
  have c: "coerce_float fact_env (JNum (3 / 2)) = Some (3 / 2)"
    by (simp add: fact_env_def scripted_defs)
  from confidence_within_bounds[of fact_env fact_text] g
  have 1: "(0::rat) \<le> 1 / 2 \<and> (1 / 2 :: rat) \<le> 1" by simp
  from confidence_within_bounds[of dup_env dup_answer_text] d
  have 2: "0 \<le> AgentAnswer.confidence dup_answer \<and> AgentAnswer.confidence dup_answer \<le> 1"
    by simp
  have o: "(3 / 2 :: rat) < 0 \<or> 1 < (3 / 2 :: rat)" by simp
  note 3 = confidence_within_bounds[of fact_env high_fact_text, THEN conjunct2, THEN conjunct2,
      rule_format, OF j l c o]
  from g d j c 1 2 3 show ?thesis by simp
qed

subsection \<open>Fences around text without backticks\<close>

lemma py_split_from_piece:
  "CHR 0x60 \<notin> set a
     \<Longrightarrow> py_split_from ''```'' cur (a @ ''```'' @ rest)
           = (rev cur @ a) # py_split_from ''```'' [] rest"
proof (induction a arbitrary: cur)
  case Nil
  show ?case by (subst py_split_from.simps) simp
next
  case (Cons c a)
  then have c: "c \<noteq> CHR 0x60" and a: "CHR 0x60 \<notin> set a" by auto
  have "py_split_from ''```'' cur ((c # a) @ ''```'' @ rest)
          = py_split_from ''```'' (c # cur) (a @ ''```'' @ rest)"
    using c by (subst py_split_from.simps) simp
  with Cons.IH[OF a, of "c # cur"] show ?case by simp
qed

lemma py_split_from_empty: "py_split_from sep cur [] = [rev cur]"
  by (subst py_split_from.simps) simp

lemma py_split_fenced:
  assumes "CHR 0x60 \<notin> set j"
  shows "py_split (fenced j) ''```'' = [[], ''json'' @ NL @ j @ NL, []]"
proof -
  have a: "CHR 0x60 \<notin> set (''json'' @ NL @ j @ NL)" using assms by (simp add: NL_def)
  have "fenced j = [] @ ''```'' @ ((''json'' @ NL @ j @ NL) @ ''```'' @ [])"
    by (simp add: fenced_def)
  then have "py_split (fenced j) ''```''
      = py_split_from ''```'' [] ([] @ ''```'' @ ((''json'' @ NL @ j @ NL) @ ''```'' @ []))"
    by (simp only: py_split_def)
  also have "\<dots> = [] # py_split_from ''```'' [] ((''json'' @ NL @ j @ NL) @ ''```'' @ [])"
    using py_split_from_piece[of "[]" "[]"] by simp
  also have "\<dots> = [[], ''json'' @ NL @ j @ NL, []]"
    using py_split_from_piece[OF a, of "[]" "[]"] by (simp add: py_split_from_empty)
  finally show ?thesis .
qed

lemma py_strip_unchanged:
  assumes "s \<noteq> []" and "\<not> py_isspace (hd s)" and "\<not> py_isspace (last s)"
  shows "py_strip s = s"
proof -
  from assms(1,2) have 1: "dropWhile py_isspace s = s" by (cases s) simp_all
  from assms(1,3) have 2: "dropWhile py_isspace (rev s) = rev s"
    by (cases "rev s") (simp_all add: hd_rev[symmetric])
  from 1 2 show ?thesis by (simp add: py_strip_def)
qed

lemma py_strip_leading: "py_isspace c \<Longrightarrow> py_strip (c # s) = py_strip s"
  by (simp add: py_strip_def)

lemma py_strip_trailing:
  assumes "py_isspace c"
  shows "py_strip (s @ [c]) = py_strip s"
proof (cases "\<forall>x \<in> set s. py_isspace x")
  case True
  then have 1: "dropWhile py_isspace s = []" unfolding dropWhile_eq_Nil_conv .
  from True assms have "\<forall>x \<in> set (s @ [c]). py_isspace x" by simp
  then have 2: "dropWhile py_isspace (s @ [c]) = []" unfolding dropWhile_eq_Nil_conv .
  show ?thesis unfolding py_strip_def 1 2 ..
next
  case False
  then obtain x where "x \<in> set s" "\<not> py_isspace x" by blast
  then have "dropWhile py_isspace (s @ [c]) = dropWhile py_isspace s @ [c]"
    by (rule dropWhile_append1)
  with assms show ?thesis by (simp add: py_strip_def)
qed

lemma py_strip_subset: "set (py_strip s) \<subseteq> set s"
proof
  fix x assume "x \<in> set (py_strip s)"
  then have "x \<in> set (dropWhile py_isspace (rev (dropWhile py_isspace s)))"
    by (simp add: py_strip_def)
  then have "x \<in> set (rev (dropWhile py_isspace s))" by (rule set_dropWhileD)
  then have "x \<in> set (dropWhile py_isspace s)" by simp
  then show "x \<in> set s" by (rule set_dropWhileD)
qed

lemma py_strip_idem: "py_strip (py_strip s) = py_strip s"
proof (cases "py_strip s = []")
  case True
  have "py_strip [] = []" by (simp add: py_strip_def)
  with True show ?thesis by simp
next
  case False
  let ?u = "dropWhile py_isspace s"
  let ?v = "dropWhile py_isspace (rev ?u)"
  have s: "py_strip s = rev ?v" by (simp add: py_strip_def)
  with False have v: "?v \<noteq> []" by simp
  have u: "?u \<noteq> []"
  proof
    assume e: "?u = []"
    show False using v unfolding e by simp
  qed
  have hv: "\<not> py_isspace (hd ?v)" using v by (rule hd_dropWhile)
  have hu: "\<not> py_isspace (hd ?u)" using u by (rule hd_dropWhile)
  have "rev ?u = takeWhile py_isspace (rev ?u) @ ?v" by simp
  then have "last (rev ?u) = last ?v" using v by (metis last_appendR)
  then have "last ?v = hd ?u" using u by (simp add: last_rev)
  with hu have lv: "\<not> py_isspace (last ?v)" by simp
  have "py_strip (rev ?v) = rev ?v"
    using v hv lv by (intro py_strip_unchanged) (simp_all add: hd_rev last_rev)
  with s show ?thesis by simp
qed

lemma strip_fences_plain:
  assumes "CHR 0x60 \<notin> set j"
  shows "strip_fences j = Inr (py_strip j)"
proof -
  have "CHR 0x60 \<notin> set (py_strip j)" using assms py_strip_subset[of j] by auto
  then have "\<not> py_startswith (py_strip j) ''```''"
    by (cases "py_strip j") (auto simp: py_startswith_def)
  then show ?thesis by (simp add: strip_fences_def py_strip_idem)
qed

lemma strip_fences_fenced:
  assumes "CHR 0x60 \<notin> set j"
  shows "strip_fences (fenced j) = Inr (py_strip j)"
proof -
  have f: "py_strip (fenced j) = fenced j"
    by (rule py_strip_unchanged) (simp_all add: fenced_def py_isspace_def)
  have p: "py_startswith (fenced j) ''```''" by (simp add: py_startswith_def fenced_def)
  have n: "py_isspace (CHR 0x0A)" by (simp add: py_isspace_def)
  have "py_strip (NL @ j @ NL) = py_strip (j @ NL)"
    using py_strip_leading[OF n, of "j @ NL"] by (simp add: NL_def)
  also have "\<dots> = py_strip j" using py_strip_trailing[OF n, of j] by (simp add: NL_def)
  finally have s: "py_strip (NL @ j @ NL) = py_strip j" .
  show ?thesis
    unfolding strip_fences_def Let_def f
    by (simp only: p if_True py_split_fenced[OF assms]) (simp add: py_index_def py_startswith_def s)
qed

lemma llm_structured_fenced:
  assumes "CHR 0x60 \<notin> set j"
      and "completion E w = (\<lambda>req. LLMResponse [Some j])"
      and "completion E' w = (\<lambda>req. LLMResponse [Some (fenced j)])"
      and "json_loads E' = json_loads E"
  shows "fst (llm_structured E' cfg sp up cls t w) = fst (llm_structured E cfg sp up cls t w)"
  using assms
  by (simp add: llm_structured_def Let_def py_index_def strip_fences_plain strip_fences_fenced
        model_validate_json_def)

subsection \<open>Runs on fenced text\<close>

lemma strip_fences_ticks: "strip_fences ticks_text = Inr ticks_text"
  by (simp add: strip_fences_def string_defs ticks_text_def)

lemma strip_fences_fenced_ticks: \<open>strip_fences (fenced ticks_text) = Inr ''{"goal": "''\<close>
  by (simp add: strip_fences_def string_defs ticks_text_def fenced_def)

text \<open>
  Claim C5, at an input where the code departs from it. The plan \<open>ticks_text\<close> validates
  as it is. Enclosed in a \<open>json\<close> code fence it does not: the text is cut at the first run
  of three backticks after the opening fence, which lies inside the \<open>goal\<close> string.
\<close>

theorem fenced_backticks_rejected:
  \<open>fst (llm_structured (answering ticks_text) demo_cfg ''s'' ''u''
          (AgentPlan_class (answering ticks_text)) DEFAULT_TEMPERATURE fresh_world)
     = Inr ticks_plan
   \<and> strip_fences (fenced ticks_text) = Inr ''{"goal": "''
   \<and> fst (llm_structured (answering (fenced ticks_text)) demo_cfg ''s'' ''u''
          (AgentPlan_class (answering (fenced ticks_text))) DEFAULT_TEMPERATURE fresh_world)
     = Inl ValidationError\<close>
proof -
  have c: "completion (answering content) fresh_world req = LLMResponse [Some content]"
    for content req
    by (simp add: answering_def scripted_defs)
  have v: "model_validate_json (answering content) (AgentPlan_class (answering content)) ticks_text
      = Inr ticks_plan" for content
    by (simp add: validate_defs answering_def scripted_defs ticks_json_def ticks_plan_def)
  have r: \<open>model_validate_json (answering content) (AgentPlan_class (answering content))
      ''{"goal": "'' = Inl ValidationError\<close> for content
    by (simp add: model_validate_json_def answering_def scripted_defs ticks_text_def)
  show ?thesis
    by (simp add: llm_structured_def Let_def py_index_def c strip_fences_ticks
          strip_fences_fenced_ticks v r)
qed

subsection \<open>Runs of the fetch\<close>

lemma down_env_get: "http_get down_env fresh_world url = GetRaises ''boom''"
  by (simp add: down_env_def scripted_defs)

lemma page_env_get: "http_get page_env fresh_world url = GetResponse ''<p>Hello</p>''"
  by (simp add: page_env_def scripted_defs)

lemma page_env_fetch: "fst (fetch_url page_env ''http://a.test'' 3 fresh_world) = '' He''"
  by (simp add: fetch_url_def fetch_url_try_def Let_def page_env_get py_slice_to_def)
     (simp add: page_env_def scripted_def)

lemma re_sub_tags_hello: "re_sub_tags ''<p>Hello</p>'' = '' Hello ''"
  by simp

lemma soup_env_get: "http_get soup_env fresh_world url = GetResponse ''<p>Hello</p>''"
  by (simp add: soup_env_def page_env_def scripted_defs)

lemma broken_soup_env_get:
  "http_get broken_soup_env fresh_world url = GetResponse ''<p>Hello</p>''"
  by (simp add: broken_soup_env_def page_env_def scripted_defs)

theorem fetch_url_length_witness:
  "http_get page_env fresh_world ''http://a.test'' = GetResponse ''<p>Hello</p>''
   \<and> \<not> bs4_installed page_env
   \<and> fst (fetch_url page_env ''http://a.test'' 3 fresh_world) = '' He''
   \<and> int (length (fst (fetch_url page_env ''http://a.test'' 3 fresh_world))) \<le> 3
   \<and> bs4_installed soup_env
   \<and> soup_get_text soup_env ''<p>Hello</p>'' = Inr ''Hello''
   \<and> fst (fetch_url soup_env ''http://a.test'' 3 fresh_world) = ''Hel''
   \<and> http_get down_env fresh_world ''http://a.test'' = GetRaises ''boom''
   \<and> fst (fetch_url down_env ''http://a.test'' 3 fresh_world)
       = ''[ERROR fetching http://a.test: boom]''
   \<and> bs4_installed broken_soup_env
   \<and> soup_get_text broken_soup_env ''<p>Hello</p>'' = Inl ''bad markup''
   \<and> fst (fetch_url broken_soup_env ''http://a.test'' 3 fresh_world)
       = ''[ERROR fetching http://a.test: bad markup]''"
proof -
  have m: "(0::int) \<le> 3" by simp
  have b: "\<not> bs4_installed page_env" by (simp add: page_env_def scripted_def)
  have sb: "bs4_installed soup_env" by (simp add: soup_env_def)
  have sp: "soup_get_text soup_env ''<p>Hello</p>'' = Inr ''Hello''" by (simp add: soup_env_def)
  have bb: "bs4_installed broken_soup_env" by (simp add: broken_soup_env_def)
  have bp: "soup_get_text broken_soup_env ''<p>Hello</p>'' = Inl ''bad markup''"
    by (simp add: broken_soup_env_def)
  note p = fetch_url_length[of page_env fresh_world "''http://a.test''" 3, THEN conjunct1,
      rule_format, OF page_env_get b, THEN conjunct2, rule_format, OF m]
  note s = fetch_url_length[of soup_env fresh_world "''http://a.test''" 3, THEN conjunct2,
      THEN conjunct1, rule_format, OF soup_env_get sb sp, THEN conjunct2, rule_format, OF m]
  have d: "http_get down_env fresh_world ''http://a.test'' = GetRaises ''boom''
      \<or> (\<exists>body. http_get down_env fresh_world ''http://a.test'' = GetResponse body
             \<and> bs4_installed down_env \<and> soup_get_text down_env body = Inl ''boom'')"
    using down_env_get by simp
  have r: "http_get broken_soup_env fresh_world ''http://a.test'' = GetRaises ''bad markup''
      \<or> (\<exists>body. http_get broken_soup_env fresh_world ''http://a.test'' = GetResponse body
             \<and> bs4_installed broken_soup_env
             \<and> soup_get_text broken_soup_env body = Inl ''bad markup'')"
    using broken_soup_env_get bb bp by simp
  note f = fetch_url_length[of down_env fresh_world "''http://a.test''" 3, THEN conjunct2,
      THEN conjunct2, rule_format, OF d, THEN conjunct1]
  note g = fetch_url_length[of broken_soup_env fresh_world "''http://a.test''" 3, THEN conjunct2,
      THEN conjunct2, rule_format, OF r, THEN conjunct1]
  from p have 1: "fst (fetch_url page_env ''http://a.test'' 3 fresh_world) = '' He''
      \<and> int (length (fst (fetch_url page_env ''http://a.test'' 3 fresh_world))) \<le> 3"
    by (simp add: re_sub_tags_hello)
  from s have 2: "fst (fetch_url soup_env ''http://a.test'' 3 fresh_world) = ''Hel''"
    by simp
  from f have 3: "fst (fetch_url down_env ''http://a.test'' 3 fresh_world)
       = ''[ERROR fetching http://a.test: boom]''" by simp
  from g have 4: "fst (fetch_url broken_soup_env ''http://a.test'' 3 fresh_world)
       = ''[ERROR fetching http://a.test: bad markup]''" by simp
  from page_env_get down_env_get b sb sp bb bp 1 2 3 4 show ?thesis by simp
qed

theorem fetch_url_placeholder_counterexample:
  "fst (fetch_url down_env ''http://a.test'' 10 fresh_world)
     = ''[ERROR fetching http://a.test: boom]''
   \<and> \<not> int (length (fst (fetch_url down_env ''http://a.test'' 10 fresh_world))) \<le> 10"
  by (simp add: fetch_url_def fetch_url_try_def Let_def down_env_get)

subsection \<open>Runs of the Synthesize step\<close>

lemma strip_fences_dup: "strip_fences dup_answer_text = Inr dup_answer_text"
  by (simp add: strip_fences_def string_defs dup_answer_text_def)

lemma dup_env_completion: "completion dup_env fresh_world req = LLMResponse [Some dup_answer_text]"
  by (simp add: dup_env_def scripted_defs)

lemma dup_env_validate:
  "model_validate_json dup_env (AgentAnswer_class dup_env) dup_answer_text = Inr dup_answer"
  by (simp add: validate_defs dup_env_def scripted_defs dup_answer_json_def dup_answer_def)

lemma dup_step_synthesize:
  "fst (step_synthesize dup_env demo_cfg ''q'' two_facts [] fresh_world) = Inr dup_answer"
  by (simp add: step_synthesize_def llm_structured_def Let_def py_index_def dup_env_completion
        strip_fences_dup dup_env_validate)

theorem synthesize_sources_witness:
  "fst (step_synthesize dup_env demo_cfg ''q'' two_facts [] fresh_world) = Inr dup_answer
   \<and> known_sources two_facts = [''https://x.test'']
   \<and> distinct (known_sources two_facts)
   \<and> validate_AgentAnswer dup_env dup_answer_json = Some dup_answer"
proof -
  note t = synthesize_sources[of dup_env demo_cfg "''q''" two_facts "[]" fresh_world]
  from t dup_step_synthesize obtain content rest cleaned v where
    "completion dup_env fresh_world (structured_request dup_env demo_cfg SYNTHESIZE_SYSTEM
        (synthesize_prompt dup_env ''q'' two_facts) (AgentAnswer_class dup_env)
        DEFAULT_TEMPERATURE) = LLMResponse (Some content # rest)"
    "strip_fences content = Inr cleaned" "json_loads dup_env cleaned = Some v"
    "validate_AgentAnswer dup_env v = Some dup_answer"
    by blast
  then have "validate_AgentAnswer dup_env dup_answer_json = Some dup_answer"
    by (simp add: dup_env_completion strip_fences_dup) (simp add: dup_env_def scripted_defs)
  moreover from t have "distinct (known_sources two_facts)" by simp
  moreover have "known_sources two_facts = [''https://x.test'']"
    by (simp add: known_sources_def two_facts_def)
  ultimately show ?thesis using dup_step_synthesize by simp
qed

theorem synthesize_duplicate_sources_counterexample:
  "fst (step_synthesize dup_env demo_cfg ''q'' two_facts [] fresh_world) = Inr dup_answer
   \<and> sources dup_answer = [''https://x.test'', ''https://x.test'']
   \<and> \<not> distinct (sources dup_answer)"
  using dup_step_synthesize by (simp add: dup_answer_def)

subsection \<open>Runs without a key\<close>

lemma unauthorized_run:
  "run_agent unauthorized_env placeholder_cfg ''q'' fresh_world
     = (Inl (APIError ''401 invalid api key''),
        fresh_world\<lparr>llm_calls := [structured_request unauthorized_env placeholder_cfg PLAN_SYSTEM
           (''User query: '' @ ''q'') (AgentPlan_class unauthorized_env) DEFAULT_TEMPERATURE]\<rparr>)"
proof -
  have "completion unauthorized_env fresh_world req = LLMRaises ''401 invalid api key''" for req
    by (simp add: unauthorized_env_def scripted_defs)
  then show ?thesis
    by (simp add: run_agent_def step_plan_def llm_structured_def Let_def)
       (simp add: fresh_world_def)
qed

theorem missing_key_is_placeholder_witness:
  "no_environ ''GROQ_API_KEY'' = None
   \<and> module_init no_environ = Inr placeholder_cfg
   \<and> (\<exists>req rest.
         llm_calls (snd (run_agent unauthorized_env placeholder_cfg ''q'' fresh_world))
           = llm_calls fresh_world @ req # rest
         \<and> api_key req = ''YOUR_GROQ_API_KEY_HERE'')"
proof -
  have n: "no_environ ''GROQ_API_KEY'' = None" by (simp add: no_environ_def)
  note t = missing_key_is_placeholder[of no_environ]
  from t have i: "module_init no_environ = Inr placeholder_cfg"
    by (simp add: getenv_def no_environ_def placeholder_cfg_def)
  from t n obtain cfg where "module_init no_environ = Inr cfg"
    and "\<forall>E qu w. \<exists>req rest.
           llm_calls (snd (run_agent E cfg qu w)) = llm_calls w @ req # rest
           \<and> api_key req = ''YOUR_GROQ_API_KEY_HERE''"
    by blast
  with i have "\<exists>req rest.
         llm_calls (snd (run_agent unauthorized_env placeholder_cfg ''q'' fresh_world))
           = llm_calls fresh_world @ req # rest
         \<and> api_key req = ''YOUR_GROQ_API_KEY_HERE''"
    by simp
  with n i show ?thesis by simp
qed

theorem missing_key_runs_counterexample:
  "module_init no_environ = Inr placeholder_cfg
   \<and> fst (run_agent unauthorized_env placeholder_cfg ''q'' fresh_world)
       = Inl (APIError ''401 invalid api key'')
   \<and> map api_key (llm_calls (snd (run_agent unauthorized_env placeholder_cfg ''q'' fresh_world)))
       = [''YOUR_GROQ_API_KEY_HERE'']"
proof -
  have "module_init no_environ = Inr placeholder_cfg"
    by (simp add: module_init_def Groq_def getenv_def no_environ_def placeholder_cfg_def)
  moreover have "api_key (structured_request unauthorized_env placeholder_cfg PLAN_SYSTEM
      (''User query: '' @ ''q'') (AgentPlan_class unauthorized_env) DEFAULT_TEMPERATURE)
        = ''YOUR_GROQ_API_KEY_HERE''"
    by (simp add: structured_request_def placeholder_cfg_def)
  ultimately show ?thesis unfolding unauthorized_run by simp
qed

subsection \<open>Runs on the mock result\<close>


subsection \<open>Runs on repeated queries\<close>

lemma three_hits_searches:
  "fst (search_web three_hits_env demo_cfg ''a'' 5
      (snd (run_searches three_hits_env demo_cfg
          [\<lparr>SearchQuery.query = ''a'', reason = ''first''\<rparr>,
           \<lparr>SearchQuery.query = ''b'', reason = ''second''\<rparr>] [] fresh_world)))
     = [hit ''third'']"
  by (simp add: tool_defs Let_def demo_cfg_def three_hits_env_def scripted_defs serper_hit_def
        hit_def)

theorem step_execute_entries_witness:
  "''__url_fetch__'' \<notin> SearchQuery.query ` set (search_queries aba_plan)
   \<and> search_queries aba_plan
     = [\<lparr>SearchQuery.query = ''a'', reason = ''first''\<rparr>,
        \<lparr>SearchQuery.query = ''b'', reason = ''second''\<rparr>]
       @ \<lparr>SearchQuery.query = ''a'', reason = ''third''\<rparr> # []
   \<and> fst ` set (fst (step_execute three_hits_env demo_cfg aba_plan fresh_world)) = {''a'', ''b''}
   \<and> length (fst (step_execute three_hits_env demo_cfg aba_plan fresh_world)) = 2
   \<and> map_of (fst (step_execute three_hits_env demo_cfg aba_plan fresh_world)) ''a''
       = Some (SearchResults [hit ''third''])"
proof -
  have nk: "''__url_fetch__'' \<notin> SearchQuery.query ` set (search_queries aba_plan)"
    by (simp add: aba_plan_def)
  note t = step_execute_entries[of aba_plan three_hits_env demo_cfg fresh_world, rule_format, OF nk]
  have s: "search_queries aba_plan
     = [\<lparr>SearchQuery.query = ''a'', reason = ''first''\<rparr>,
        \<lparr>SearchQuery.query = ''b'', reason = ''second''\<rparr>]
       @ \<lparr>SearchQuery.query = ''a'', reason = ''third''\<rparr> # []"
    by (simp add: aba_plan_def)
  have q: "SearchQuery.query ` set (search_queries aba_plan) = {''a'', ''b''}"
    by (auto simp: aba_plan_def)
  have c: "card {''a'', ''b''} = 2" by simp
  from t q have 1: "fst ` set (fst (step_execute three_hits_env demo_cfg aba_plan fresh_world))
      = {''a'', ''b''}"
    by (simp add: aba_plan_def)
  from t q c have 2: "length (fst (step_execute three_hits_env demo_cfg aba_plan fresh_world)) = 2"
    by (simp add: aba_plan_def)
  have n: "SearchQuery.query \<lparr>SearchQuery.query = ''a'', reason = ''third''\<rparr>
      \<notin> SearchQuery.query ` set []" by simp
  note t[THEN conjunct2, THEN conjunct2, THEN conjunct2, rule_format, OF s n]
  then have 3: "map_of (fst (step_execute three_hits_env demo_cfg aba_plan fresh_world)) ''a''
       = Some (SearchResults [hit ''third''])"
    using three_hits_searches by simp
  from nk s 1 2 3 show ?thesis by simp
qed

theorem url_fetch_key_counterexample:
  "\<not> needs_url_fetch collide_plan
   \<and> fst (step_execute offline_env mock_cfg collide_plan fresh_world)
       = [(''__url_fetch__'', SearchResults [mock_result ''__url_fetch__''])]
   \<and> needs_url_fetch collide_fetch_plan
   \<and> target_url collide_fetch_plan = Some ''http://a.test''
   \<and> fst (step_execute offline_env mock_cfg collide_fetch_plan fresh_world)
       = [(''__url_fetch__'', PageText ''[ERROR fetching http://a.test: no more responses]'')]"
  by (simp add: tool_defs Let_def mock_cfg_def collide_plan_def collide_fetch_plan_def
        offline_env_def scripted_defs)

end
